theory Spec2Isabelle
  imports Complex_Main
begin

section \<open>Data model\<close>

text \<open>
  The overlay engine of pixel-blur: the page component \<open>Home\<close> (src/app/page.tsx, the
  variant with text overlays) owns the overlay collections and the undo history; the
  component \<open>CanvasStage\<close> owns the pointer gesture state and calls back into \<open>Home\<close>;
  \<open>renderScene\<close> (src/lib/canvas.ts) paints the scene.

  JavaScript numbers are modelled as exact reals: rounding of IEEE doubles, NaN and the
  infinities are outside the model. Where the source divides by a value that can be zero
  the JavaScript outcome is written out, since in HOL \<open>x / 0 = 0\<close>.
  Strings are lists of characters, one per UTF-16 code unit of the source's string.
\<close>

datatype Mode = Blur | Magnify | StickerMode | TextMode

datatype LensShape = Circle | Rounded

datatype BackgroundMode = BgBlack | BgWhite | BgImage

record Point =
  pt_x :: real
  pt_y :: real

text \<open>An \<open>HTMLImageElement\<close>, as far as the engine reads it: its natural pixel size.\<close>

record Image =
  naturalWidth :: nat
  naturalHeight :: nat

record Lens =
  lens_id :: string
  lens_x :: real
  lens_y :: real
  lens_width :: real
  lens_height :: real
  lens_sourceX :: real
  lens_sourceY :: real
  lens_sourceImageX :: real
  lens_sourceImageY :: real
  lens_mode :: Mode
  lens_shape :: LensShape
  lens_blur :: real
  lens_magnification :: real
  lens_createdAt :: real

record Sticker =
  sticker_id :: string
  sticker_x :: real
  sticker_y :: real
  sticker_width :: real
  sticker_height :: real
  sticker_image :: Image
  sticker_shape :: LensShape

record TextOverlay =
  text_id :: string
  text_x :: real
  text_y :: real
  text_text :: string
  text_color :: string
  text_size :: real
  text_font :: string

text \<open>
  \<open>Partial<Lens>\<close>, \<open>Partial<Sticker>\<close> and \<open>Partial<TextOverlay>\<close>: the key/value pairs
  of an object literal, in order. The spread \<open>{ ...lens, ...payload }\<close> copies the entity
  and then assigns every key of the payload.
\<close>

datatype LensField =
    L_id string | L_x real | L_y real | L_width real | L_height real
  | L_sourceX real | L_sourceY real | L_sourceImageX real | L_sourceImageY real
  | L_mode Mode | L_shape LensShape | L_blur real | L_magnification real
  | L_createdAt real

datatype StickerField =
    S_id string | S_x real | S_y real | S_width real | S_height real
  | S_image Image | S_shape LensShape

datatype TextField =
    T_id string | T_x real | T_y real | T_text string | T_color string
  | T_size real | T_font string

fun setLensField :: "LensField \<Rightarrow> Lens \<Rightarrow> Lens" where
  "setLensField (L_id v) l = l\<lparr>lens_id := v\<rparr>"
| "setLensField (L_x v) l = l\<lparr>lens_x := v\<rparr>"
| "setLensField (L_y v) l = l\<lparr>lens_y := v\<rparr>"
| "setLensField (L_width v) l = l\<lparr>lens_width := v\<rparr>"
| "setLensField (L_height v) l = l\<lparr>lens_height := v\<rparr>"
| "setLensField (L_sourceX v) l = l\<lparr>lens_sourceX := v\<rparr>"
| "setLensField (L_sourceY v) l = l\<lparr>lens_sourceY := v\<rparr>"
| "setLensField (L_sourceImageX v) l = l\<lparr>lens_sourceImageX := v\<rparr>"
| "setLensField (L_sourceImageY v) l = l\<lparr>lens_sourceImageY := v\<rparr>"
| "setLensField (L_mode v) l = l\<lparr>lens_mode := v\<rparr>"
| "setLensField (L_shape v) l = l\<lparr>lens_shape := v\<rparr>"
| "setLensField (L_blur v) l = l\<lparr>lens_blur := v\<rparr>"
| "setLensField (L_magnification v) l = l\<lparr>lens_magnification := v\<rparr>"
| "setLensField (L_createdAt v) l = l\<lparr>lens_createdAt := v\<rparr>"

fun setStickerField :: "StickerField \<Rightarrow> Sticker \<Rightarrow> Sticker" where
  "setStickerField (S_id v) s = s\<lparr>sticker_id := v\<rparr>"
| "setStickerField (S_x v) s = s\<lparr>sticker_x := v\<rparr>"
| "setStickerField (S_y v) s = s\<lparr>sticker_y := v\<rparr>"
| "setStickerField (S_width v) s = s\<lparr>sticker_width := v\<rparr>"
| "setStickerField (S_height v) s = s\<lparr>sticker_height := v\<rparr>"
| "setStickerField (S_image v) s = s\<lparr>sticker_image := v\<rparr>"
| "setStickerField (S_shape v) s = s\<lparr>sticker_shape := v\<rparr>"

fun setTextField :: "TextField \<Rightarrow> TextOverlay \<Rightarrow> TextOverlay" where
  "setTextField (T_id v) t = t\<lparr>text_id := v\<rparr>"
| "setTextField (T_x v) t = t\<lparr>text_x := v\<rparr>"
| "setTextField (T_y v) t = t\<lparr>text_y := v\<rparr>"
| "setTextField (T_text v) t = t\<lparr>text_text := v\<rparr>"
| "setTextField (T_color v) t = t\<lparr>text_color := v\<rparr>"
| "setTextField (T_size v) t = t\<lparr>text_size := v\<rparr>"
| "setTextField (T_font v) t = t\<lparr>text_font := v\<rparr>"

definition mergeLens :: "Lens \<Rightarrow> LensField list \<Rightarrow> Lens" where
  "mergeLens l payload = fold setLensField payload l"

definition mergeSticker :: "Sticker \<Rightarrow> StickerField list \<Rightarrow> Sticker" where
  "mergeSticker s payload = fold setStickerField payload s"

definition mergeText :: "TextOverlay \<Rightarrow> TextField list \<Rightarrow> TextOverlay" where
  "mergeText t payload = fold setTextField payload t"

section \<open>Strings\<close>

text \<open>
  \<open>String.prototype.trim\<close> removes white space at both ends. Of JavaScript's white space
  the code units below U+0080 are modelled: tab, line feed, vertical tab, form feed,
  carriage return and space.
\<close>

definition isWhiteSpace :: "char \<Rightarrow> bool" where
  "isWhiteSpace c \<longleftrightarrow>
     c \<in> set [CHR 0x09, CHR 0x0A, CHR 0x0B, CHR 0x0C, CHR 0x0D, CHR 0x20]"

definition trim :: "string \<Rightarrow> string" where
  "trim s = rev (dropWhile isWhiteSpace (rev (dropWhile isWhiteSpace s)))"

text \<open>\<open>s.split(/\r?\n/)\<close>: the current line is accumulated in reverse.\<close>

fun splitLinesAcc :: "string \<Rightarrow> string \<Rightarrow> string list" where
  "splitLinesAcc cur [] = [rev cur]"
| "splitLinesAcc cur (c # cs) =
     (if c = CHR 0x0A
      then rev (case cur of [] \<Rightarrow> [] | d # ds \<Rightarrow> if d = CHR 0x0D then ds else d # ds)
             # splitLinesAcc [] cs
      else splitLinesAcc (c # cur) cs)"

definition splitLines :: "string \<Rightarrow> string list" where
  "splitLines s = splitLinesAcc [] s"

section \<open>The overlay store (Home, src/app/page.tsx)\<close>

record Snapshot =
  snap_lenses :: "Lens list"
  snap_stickers :: "Sticker list"
  snap_texts :: "TextOverlay list"

record Home =
  imageSrc :: string
  imageEl :: "Image option"
  stickerSrc :: "string option"
  stickerImage :: "Image option"
  mode :: Mode
  lensShape :: LensShape
  lensSize :: real
  blurAmount :: real
  magnification :: real
  lenses :: "Lens list"
  stickers :: "Sticker list"
  texts :: "TextOverlay list"
  textValue :: string
  textColor :: string
  textSize :: real
  backgroundMode :: BackgroundMode
  history :: "Snapshot list"
  isUndoing :: bool

definition textFont :: string where
  "textFont = ''Terminus''"

definition initialHome :: Home where
  "initialHome = \<lparr> imageSrc = '''', imageEl = None, stickerSrc = None, stickerImage = None,
     mode = Blur, lensShape = Circle, lensSize = 320, blurAmount = 12, magnification = 2,
     lenses = [], stickers = [], texts = [],
     textValue = ''Sample text'', textColor = ''#f5f5f5'', textSize = 28,
     backgroundMode = BgImage, history = [], isUndoing = False \<rparr>"

text \<open>\<open>xs.slice(-n)\<close>: the last \<open>n\<close> elements, all of them when there are fewer.\<close>

definition sliceLast :: "nat \<Rightarrow> 'a list \<Rightarrow> 'a list" where
  "sliceLast n xs = drop (length xs - n) xs"

text \<open>
  \<open>pushHistory\<close>: nothing while an undo is in flight; otherwise the last 49 snapshots
  and the new one. The per-entity copies \<open>{ ...l }\<close> are the entities themselves in a
  model of values.
\<close>

definition pushHistory ::
  "Lens list \<Rightarrow> Sticker list \<Rightarrow> TextOverlay list \<Rightarrow> Home \<Rightarrow> Home" where
  "pushHistory lensSnapshot stickerSnapshot textSnapshot h =
     (if isUndoing h then h
      else h\<lparr>history := sliceLast 49 (history h) @
             [\<lparr>snap_lenses = lensSnapshot, snap_stickers = stickerSnapshot,
               snap_texts = textSnapshot\<rparr>]\<rparr>)"

text \<open>
  \<open>handleUndo\<close> pops the last snapshot and installs it; the flag \<open>isUndoingRef\<close> is set
  and is cleared by the timer callback, modelled as the separate step \<open>undoTimeout\<close>.
\<close>

definition handleUndo :: "Home \<Rightarrow> Home" where
  "handleUndo h =
     (if length (history h) = 0 then h
      else let snapshot = last (history h) in
        h\<lparr>history := butlast (history h), isUndoing := True,
          lenses := snap_lenses snapshot, stickers := snap_stickers snapshot,
          texts := snap_texts snapshot\<rparr>)"

definition undoTimeout :: "Home \<Rightarrow> Home" where
  "undoTimeout h = h\<lparr>isUndoing := False\<rparr>"

definition handleLensAdd :: "Lens \<Rightarrow> Home \<Rightarrow> Home" where
  "handleLensAdd lens h =
     (let h1 = pushHistory (lenses h) (stickers h) (texts h) h
      in h1\<lparr>lenses := lenses h1 @ [lens]\<rparr>)"

definition handleStickerAdd :: "Sticker \<Rightarrow> Home \<Rightarrow> Home" where
  "handleStickerAdd sticker h =
     (let h1 = pushHistory (lenses h) (stickers h) (texts h) h
      in h1\<lparr>stickers := stickers h1 @ [sticker]\<rparr>)"

definition handleTextAdd :: "TextOverlay \<Rightarrow> Home \<Rightarrow> Home" where
  "handleTextAdd text h =
     (if trim (text_text text) = [] then h
      else let h1 = pushHistory (lenses h) (stickers h) (texts h) h
           in h1\<lparr>texts := texts h1 @ [text]\<rparr>)"

definition handleTextSelect :: "TextOverlay \<Rightarrow> Home \<Rightarrow> Home" where
  "handleTextSelect text h =
     h\<lparr>textValue := text_text text, textColor := text_color text,
       textSize := text_size text\<rparr>"

definition onLensUpdate :: "string \<Rightarrow> LensField list \<Rightarrow> Home \<Rightarrow> Home" where
  "onLensUpdate i payload h =
     (let h1 = pushHistory (lenses h) (stickers h) (texts h) h
      in h1\<lparr>lenses :=
           map (\<lambda>lens. if lens_id lens = i then mergeLens lens payload else lens)
             (lenses h1)\<rparr>)"

definition onStickerUpdate :: "string \<Rightarrow> StickerField list \<Rightarrow> Home \<Rightarrow> Home" where
  "onStickerUpdate i payload h =
     (let h1 = pushHistory (lenses h) (stickers h) (texts h) h
      in h1\<lparr>stickers :=
           map (\<lambda>sticker. if sticker_id sticker = i then mergeSticker sticker payload
                           else sticker)
             (stickers h1)\<rparr>)"

definition onTextUpdate :: "string \<Rightarrow> TextField list \<Rightarrow> Home \<Rightarrow> Home" where
  "onTextUpdate i payload h =
     (let h1 = pushHistory (lenses h) (stickers h) (texts h) h
      in h1\<lparr>texts :=
           map (\<lambda>text. if text_id text = i then mergeText text payload else text)
             (texts h1)\<rparr>)"

definition handleReset :: "Home \<Rightarrow> Home" where
  "handleReset h =
     (let h1 = pushHistory (lenses h) (stickers h) (texts h) h
      in h1\<lparr>lenses := [], stickers := [], texts := []\<rparr>)"

text \<open>The \<open>onload\<close> callbacks of the two file readers, given the file's data URL.\<close>

definition handleFilePicked :: "string \<Rightarrow> Home \<Rightarrow> Home" where
  "handleFilePicked result h =
     h\<lparr>imageSrc := result, lenses := [], stickers := [], texts := [], history := []\<rparr>"

definition handleStickerPicked :: "string \<Rightarrow> Home \<Rightarrow> Home" where
  "handleStickerPicked result h = h\<lparr>stickerSrc := Some result, history := []\<rparr>"

text \<open>
  The image effects: an empty source clears the bitmap at once; otherwise the decoded
  bitmap arrives later with its \<open>onload\<close> event, modelled as a step of its own.
\<close>

definition imageLoaded :: "Image \<Rightarrow> Home \<Rightarrow> Home" where
  "imageLoaded img h = h\<lparr>imageEl := Some img\<rparr>"

definition stickerLoaded :: "Image \<Rightarrow> Home \<Rightarrow> Home" where
  "stickerLoaded img h = h\<lparr>stickerImage := Some img\<rparr>"

text \<open>The mutating actions of the store, and the events that reach \<open>Home\<close>.\<close>

datatype Action =
    AddLens Lens
  | AddSticker Sticker
  | AddText TextOverlay
  | UpdateLens string "LensField list"
  | UpdateSticker string "StickerField list"
  | UpdateText string "TextField list"
  | Reset

fun perform :: "Action \<Rightarrow> Home \<Rightarrow> Home" where
  "perform (AddLens l) h = handleLensAdd l h"
| "perform (AddSticker s) h = handleStickerAdd s h"
| "perform (AddText t) h = handleTextAdd t h"
| "perform (UpdateLens i p) h = onLensUpdate i p h"
| "perform (UpdateSticker i p) h = onStickerUpdate i p h"
| "perform (UpdateText i p) h = onTextUpdate i p h"
| "perform Reset h = handleReset h"

text \<open>
  \<open>handleTextAdd\<close> returns at once on a text that trims to the empty string: such a call
  is no mutation, and takes no snapshot.
\<close>

fun mutating :: "Action \<Rightarrow> bool" where
  "mutating (AddText t) = (trim (text_text t) \<noteq> [])"
| "mutating _ = True"

datatype Event =
    Act Action
  | Undo
  | UndoTimeout
  | FilePicked string
  | StickerPicked string
  | ImageLoaded Image
  | StickerLoaded Image

fun step :: "Event \<Rightarrow> Home \<Rightarrow> Home" where
  "step (Act a) h = perform a h"
| "step Undo h = handleUndo h"
| "step UndoTimeout h = undoTimeout h"
| "step (FilePicked r) h = handleFilePicked r h"
| "step (StickerPicked r) h = handleStickerPicked r h"
| "step (ImageLoaded img) h = imageLoaded img h"
| "step (StickerLoaded img) h = stickerLoaded img h"

definition run :: "Event list \<Rightarrow> Home \<Rightarrow> Home" where
  "run evs h = fold step evs h"

definition performAll :: "Action list \<Rightarrow> Home \<Rightarrow> Home" where
  "performAll acts h = fold perform acts h"

text \<open>The snapshot each action of a sequence finds before it runs, oldest first.\<close>

definition snapshotOf :: "Home \<Rightarrow> Snapshot" where
  "snapshotOf h = \<lparr>snap_lenses = lenses h, snap_stickers = stickers h, snap_texts = texts h\<rparr>"

fun snapshotsBefore :: "Action list \<Rightarrow> Home \<Rightarrow> Snapshot list" where
  "snapshotsBefore [] h = []"
| "snapshotsBefore (a # as) h = snapshotOf h # snapshotsBefore as (perform a h)"

section \<open>Geometry and coordinate mapping\<close>

definition clamp :: "real \<Rightarrow> real \<Rightarrow> real \<Rightarrow> real" where
  "clamp v lo hi = min (max v lo) hi"

record ImageMetrics =
  im_scale :: real
  im_offsetX :: real
  im_offsetY :: real
  im_drawWidth :: real
  im_drawHeight :: real

text \<open>
  The fit-to-canvas placement of the base image, computed alike by \<open>imageMetrics\<close> of the
  stage and by \<open>renderScene\<close>. A bitmap that has loaded has a positive natural size;
  for a zero size JavaScript divides to infinity, which the model leaves out.
\<close>

definition imageMetrics :: "real \<Rightarrow> real \<Rightarrow> Image option \<Rightarrow> ImageMetrics option" where
  "imageMetrics w h effImage =
     (case effImage of None \<Rightarrow> None
      | Some img \<Rightarrow>
         (let scale = min (w / real (naturalWidth img)) (h / real (naturalHeight img));
              drawWidth = real (naturalWidth img) * scale;
              drawHeight = real (naturalHeight img) * scale;
              offsetX = (w - drawWidth) / 2;
              offsetY = (h - drawHeight) / 2
          in Some \<lparr>im_scale = scale, im_offsetX = offsetX, im_offsetY = offsetY,
                    im_drawWidth = drawWidth, im_drawHeight = drawHeight\<rparr>))"

definition effectiveImage :: "Home \<Rightarrow> Image option" where
  "effectiveImage h = (if backgroundMode h = BgImage then imageEl h else None)"

definition toImagePoint :: "ImageMetrics option \<Rightarrow> Image option \<Rightarrow> Point \<Rightarrow> Point" where
  "toImagePoint metrics effImage point =
     (case metrics of None \<Rightarrow> \<lparr>pt_x = pt_x point, pt_y = pt_y point\<rparr>
      | Some m \<Rightarrow>
         \<lparr>pt_x = clamp ((pt_x point - im_offsetX m) / im_scale m) 0
                   (case effImage of Some img \<Rightarrow> real (naturalWidth img)
                    | None \<Rightarrow> pt_x point),
          pt_y = clamp ((pt_y point - im_offsetY m) / im_scale m) 0
                   (case effImage of Some img \<Rightarrow> real (naturalHeight img)
                    | None \<Rightarrow> pt_y point)\<rparr>)"

text \<open>
  The browser's text measurement (\<open>ctx.measureText(text).width\<close> under a font string built
  from size and font) is a parameter of the model. Without a canvas the source falls back
  to \<open>text.length * 12 * 0.6\<close>.
\<close>

type_synonym Metrics = "string \<Rightarrow> real \<Rightarrow> string \<Rightarrow> real"

definition noCanvasMetrics :: Metrics where
  "noCanvasMetrics text sz font = real (length text) * 12 * 0.6"

definition measureText :: "Metrics \<Rightarrow> string \<Rightarrow> real \<Rightarrow> string \<Rightarrow> real" where
  "measureText mw text sz font = max 30 (mw text sz font)"

record TextBounds =
  tb_width :: real
  tb_height :: real
  tb_lineHeight :: real
  tb_lines :: "string list"

definition estimateTextBounds :: "Metrics \<Rightarrow> string \<Rightarrow> real \<Rightarrow> string \<Rightarrow> TextBounds" where
  "estimateTextBounds mw text sz font =
     (let lines = splitLines (if text = [] then ''Text'' else text);
          lineHeight = sz * 1.2;
          widths = map (\<lambda>line. measureText mw (if line = [] then '' '' else line) sz font)
                     lines;
          width = fold max widths 30;
          height = max lineHeight (real (length lines) * lineHeight)
      in \<lparr>tb_width = width, tb_height = height, tb_lineHeight = lineHeight,
          tb_lines = lines\<rparr>)"

definition getTextBounds :: "Metrics \<Rightarrow> TextOverlay \<Rightarrow> TextBounds" where
  "getTextBounds mw text =
     estimateTextBounds mw (text_text text) (text_size text) (text_font text)"

text \<open>The structural type \<open>{x, y, width, height, shape}\<close> of previews and hit tests.\<close>

record LensPreview =
  pv_x :: real
  pv_y :: real
  pv_width :: real
  pv_height :: real
  pv_shape :: LensShape

definition lensBox :: "Lens \<Rightarrow> LensPreview" where
  "lensBox l = \<lparr>pv_x = lens_x l, pv_y = lens_y l, pv_width = lens_width l,
                pv_height = lens_height l, pv_shape = lens_shape l\<rparr>"

definition stickerBox :: "Sticker \<Rightarrow> LensPreview" where
  "stickerBox s = \<lparr>pv_x = sticker_x s, pv_y = sticker_y s, pv_width = sticker_width s,
                   pv_height = sticker_height s, pv_shape = sticker_shape s\<rparr>"

text \<open>
  \<open>isWithinLens\<close>. With a zero radius the source's quotient is \<open>0 / 0\<close>, a NaN, and the
  comparison with 1 is false.
\<close>

definition isWithinLens :: "LensPreview \<Rightarrow> Point \<Rightarrow> bool" where
  "isWithinLens lens point =
     (let withinRect =
            (pt_x point \<ge> pv_x lens \<and> pt_x point \<le> pv_x lens + pv_width lens \<and>
             pt_y point \<ge> pv_y lens \<and> pt_y point \<le> pv_y lens + pv_height lens)
      in if \<not> withinRect then False
         else if pv_shape lens = Rounded then True
         else (let rx = pv_width lens / 2; ry = pv_height lens / 2;
                   cx = pv_x lens + rx; cy = pv_y lens + ry
               in if rx = 0 \<or> ry = 0 then False
                  else (pt_x point - cx)\<^sup>2 / rx\<^sup>2 + (pt_y point - cy)\<^sup>2 / ry\<^sup>2 \<le> 1))"

definition isWithinText :: "Metrics \<Rightarrow> TextOverlay \<Rightarrow> Point \<Rightarrow> bool" where
  "isWithinText mw text point =
     (let bounds = getTextBounds mw text
      in pt_x point \<ge> text_x text \<and> pt_x point \<le> text_x text + tb_width bounds \<and>
         pt_y point \<ge> text_y text \<and> pt_y point \<le> text_y text + tb_height bounds)"

section \<open>The interaction state machine (CanvasStage)\<close>

record Offset =
  off_dx :: real
  off_dy :: real

record Rect =
  rect_x :: real
  rect_y :: real
  rect_width :: real
  rect_height :: real

record ResizeState =
  rs_id :: string
  rs_start :: Rect
  rs_startPoint :: Point

record Stage =
  size_width :: real
  size_height :: real
  dragStart :: "Point option"
  dragCurrent :: "Point option"
  activeLensId :: "string option"
  dragOffsetRef :: "Offset option"
  resizeState :: "ResizeState option"
  activeStickerId :: "string option"
  stickerDragOffsetRef :: "Offset option"
  stickerResizeState :: "ResizeState option"
  activeTextId :: "string option"
  editingText :: string
  textDragOffsetRef :: "Offset option"
  textResizeState :: "ResizeState option"

definition initialStage :: Stage where
  "initialStage = \<lparr> size_width = 920, size_height = 620, dragStart = None,
     dragCurrent = None, activeLensId = None, dragOffsetRef = None, resizeState = None,
     activeStickerId = None, stickerDragOffsetRef = None, stickerResizeState = None,
     activeTextId = None, editingText = [], textDragOffsetRef = None,
     textResizeState = None \<rparr>"

text \<open>A string or null used as a condition: null and the empty string are false.\<close>

definition truthy :: "string option \<Rightarrow> bool" where
  "truthy v = (case v of None \<Rightarrow> False | Some i \<Rightarrow> i \<noteq> [])"

text \<open>
  The handlers receive the pointer position already converted to canvas coordinates by
  \<open>toCanvasPoint\<close>, and the button of the event. Pointer capture has no state in the model.
  A handler works on the page state and the stage state together and returns both; the
  callbacks \<open>onLensAdd\<close>, \<open>onLensUpdate\<close> and their like are the store operations above.
  The effects of the component (rendering, the live update of the selected text from the
  style controls) run after a handler and are not part of it.
\<close>

definition handlePointerDown :: "Metrics \<Rightarrow> int \<Rightarrow> Point \<Rightarrow> Home \<times> Stage \<Rightarrow> Home \<times> Stage" where
  "handlePointerDown mw button point hs =
     (let h = fst hs; s = snd hs;
          textHit = find (\<lambda>t. isWithinText mw t point) (rev (texts h));
          stickerHit = find (\<lambda>st. isWithinLens (stickerBox st) point) (rev (stickers h));
          hit = find (\<lambda>lens. isWithinLens (lensBox lens) point) (rev (lenses h))
      in if textHit \<noteq> None \<and> button = 0 then
           (case textHit of None \<Rightarrow> hs
            | Some t \<Rightarrow>
               (handleTextSelect t h,
                s\<lparr>activeTextId := Some (text_id t),
                  textDragOffsetRef := Some \<lparr>off_dx = pt_x point - text_x t,
                                             off_dy = pt_y point - text_y t\<rparr>,
                  editingText := text_text t\<rparr>))
         else if textHit \<noteq> None \<and> button = 2 then
           (case textHit of None \<Rightarrow> hs
            | Some t \<Rightarrow>
               (let bounds = getTextBounds mw t in
                (handleTextSelect t h,
                 s\<lparr>activeTextId := Some (text_id t), editingText := text_text t,
                   textResizeState := Some \<lparr>rs_id = text_id t,
                     rs_start = \<lparr>rect_x = text_x t, rect_y = text_y t,
                                 rect_width = tb_width bounds,
                                 rect_height = tb_height bounds\<rparr>,
                     rs_startPoint = point\<rparr>\<rparr>)))
         else if stickerHit \<noteq> None \<and> button = 0 then
           (case stickerHit of None \<Rightarrow> hs
            | Some st \<Rightarrow>
               (h, s\<lparr>activeStickerId := Some (sticker_id st),
                     stickerDragOffsetRef := Some \<lparr>off_dx = pt_x point - sticker_x st,
                                                   off_dy = pt_y point - sticker_y st\<rparr>\<rparr>))
         else if stickerHit \<noteq> None \<and> button = 2 then
           (case stickerHit of None \<Rightarrow> hs
            | Some st \<Rightarrow>
               (h, s\<lparr>stickerResizeState := Some \<lparr>rs_id = sticker_id st,
                       rs_start = \<lparr>rect_x = sticker_x st, rect_y = sticker_y st,
                                   rect_width = sticker_width st,
                                   rect_height = sticker_height st\<rparr>,
                       rs_startPoint = point\<rparr>\<rparr>))
         else if hit \<noteq> None \<and> button = 0 then
           (case hit of None \<Rightarrow> hs
            | Some l \<Rightarrow>
               (h, s\<lparr>activeLensId := Some (lens_id l),
                     dragOffsetRef := Some \<lparr>off_dx = pt_x point - lens_x l,
                                            off_dy = pt_y point - lens_y l\<rparr>\<rparr>))
         else if hit \<noteq> None \<and> button = 2 then
           (case hit of None \<Rightarrow> hs
            | Some l \<Rightarrow>
               (h, s\<lparr>resizeState := Some \<lparr>rs_id = lens_id l,
                       rs_start = \<lparr>rect_x = lens_x l, rect_y = lens_y l,
                                   rect_width = lens_width l,
                                   rect_height = lens_height l\<rparr>,
                       rs_startPoint = point\<rparr>\<rparr>))
         else if effectiveImage h = None \<and> mode h \<noteq> TextMode then
           (h, s\<lparr>activeTextId := None, editingText := [], textDragOffsetRef := None\<rparr>)
         else if textHit = None \<and> stickerHit = None \<and> hit = None \<and> truthy (activeTextId s)
         then (h, s\<lparr>activeTextId := None, editingText := [], textDragOffsetRef := None\<rparr>)
         else (h, s\<lparr>dragStart := Some point, dragCurrent := Some point\<rparr>))"

subsection \<open>Pointer move\<close>

definition moveTextResize :: "ResizeState \<Rightarrow> Point \<Rightarrow> Home \<Rightarrow> Home" where
  "moveTextResize rs point h =
     (let start = rs_start rs; startPoint = rs_startPoint rs; i = rs_id rs;
          dx = pt_x point - pt_x startPoint;
          dy = pt_y point - pt_y startPoint;
          nextWidth = max 30 (rect_width start + dx);
          nextHeight = max 18 (rect_height start + dy)
      in case find (\<lambda>t. text_id t = i) (texts h) of
           None \<Rightarrow> h
         | Some currentText \<Rightarrow>
            (let lines = splitLines (text_text currentText);
                 longest = fold (\<lambda>line m. max m (length line)) lines 1;
                 newSize = max 10 (min 200
                             (min (nextWidth / real (max 1 longest) / 0.6)
                                  (nextHeight / 1.2 / real (length lines))))
             in onTextUpdate i [T_size newSize] h))"

definition moveTextDrag ::
  "Metrics \<Rightarrow> real \<Rightarrow> real \<Rightarrow> Offset \<Rightarrow> string \<Rightarrow> Point \<Rightarrow> Home \<Rightarrow> Home" where
  "moveTextDrag mw w h0 off activeId point h =
     (case find (\<lambda>t. text_id t = activeId) (texts h) of
        None \<Rightarrow> h
      | Some text \<Rightarrow>
         (let bounds = getTextBounds mw text;
              newX = clamp (pt_x point - off_dx off) 0 (w - tb_width bounds);
              newY = clamp (pt_y point - off_dy off) 0 (h0 - tb_height bounds)
          in onTextUpdate (text_id text) [T_x newX, T_y newY] h))"

definition stickerRatio :: "Image \<Rightarrow> real" where
  "stickerRatio img =
     (if naturalWidth img \<noteq> 0 \<and> naturalHeight img \<noteq> 0
      then real (naturalWidth img) / real (naturalHeight img) else 1)"

text \<open>
  The sticker resize in two steps, as the source has them: the size that follows the
  pointer at the ratio of the loaded sticker bitmap, and its clamp to the 40-unit minimum
  and to the room left on the canvas.
\<close>

definition stickerResizeRaw :: "ResizeState \<Rightarrow> Image \<Rightarrow> Point \<Rightarrow> real \<times> real" where
  "stickerResizeRaw rs img point =
     (let start = rs_start rs; startPoint = rs_startPoint rs;
          dx = pt_x point - pt_x startPoint;
          dy = pt_y point - pt_y startPoint;
          ratio = stickerRatio img;
          newWidth0 = rect_width start + dx;
          newHeight0 = newWidth0 / ratio;
          grow = (newHeight0 < rect_height start + dy);
          newHeight = (if grow then rect_height start + dy else newHeight0);
          newWidth = (if grow then newHeight * ratio else newWidth0)
      in (newWidth, newHeight))"

definition stickerResizeDims ::
  "real \<Rightarrow> real \<Rightarrow> ResizeState \<Rightarrow> Image \<Rightarrow> Point \<Rightarrow> real \<times> real" where
  "stickerResizeDims w h0 rs img point =
     (let raw = stickerResizeRaw rs img point; start = rs_start rs;
          newWidth = clamp (fst raw) 40 (w - rect_x start);
          newHeight = clamp (snd raw) 40 (h0 - rect_y start)
      in (newWidth, newHeight))"

definition moveStickerResize ::
  "real \<Rightarrow> real \<Rightarrow> ResizeState \<Rightarrow> Image \<Rightarrow> Point \<Rightarrow> Home \<Rightarrow> Home" where
  "moveStickerResize w h0 rs img point h =
     (let d = stickerResizeDims w h0 rs img point
      in onStickerUpdate (rs_id rs) [S_width (fst d), S_height (snd d)] h)"

definition moveStickerDrag ::
  "real \<Rightarrow> real \<Rightarrow> Offset \<Rightarrow> string \<Rightarrow> Point \<Rightarrow> Home \<Rightarrow> Home" where
  "moveStickerDrag w h0 off activeId point h =
     (case find (\<lambda>st. sticker_id st = activeId) (stickers h) of
        None \<Rightarrow> h
      | Some sticker \<Rightarrow>
         (let newX = clamp (pt_x point - off_dx off) 0 (w - sticker_width sticker);
              newY = clamp (pt_y point - off_dy off) 0 (h0 - sticker_height sticker)
          in onStickerUpdate (sticker_id sticker) [S_x newX, S_y newY] h))"

definition lensResizeDims ::
  "real \<Rightarrow> real \<Rightarrow> ResizeState \<Rightarrow> Lens list \<Rightarrow> Point \<Rightarrow> real \<times> real" where
  "lensResizeDims w h0 rs ls point =
     (let start = rs_start rs; startPoint = rs_startPoint rs;
          dx = pt_x point - pt_x startPoint;
          dy = pt_y point - pt_y startPoint;
          newWidth = clamp (rect_width start + dx) 60 (w - rect_x start);
          newHeight = clamp (rect_height start + dy) 60 (h0 - rect_y start)
      in if (case find (\<lambda>l. lens_id l = rs_id rs) ls of
               None \<Rightarrow> False | Some l \<Rightarrow> lens_shape l = Circle)
         then (let unified = min (max newWidth newHeight)
                               (min (w - rect_x start) (h0 - rect_y start))
               in (unified, unified))
         else (newWidth, newHeight))"

definition moveLensResize :: "real \<Rightarrow> real \<Rightarrow> ResizeState \<Rightarrow> Point \<Rightarrow> Home \<Rightarrow> Home" where
  "moveLensResize w h0 rs point h =
     (let d = lensResizeDims w h0 rs (lenses h) point
      in onLensUpdate (rs_id rs) [L_width (fst d), L_height (snd d)] h)"

definition moveLensDrag ::
  "real \<Rightarrow> real \<Rightarrow> Offset \<Rightarrow> string \<Rightarrow> Point \<Rightarrow> Home \<Rightarrow> Home" where
  "moveLensDrag w h0 off activeId point h =
     (case find (\<lambda>l. lens_id l = activeId) (lenses h) of
        None \<Rightarrow> h
      | Some lens \<Rightarrow>
         (let newX = clamp (pt_x point - off_dx off) 0 (w - lens_width lens);
              newY = clamp (pt_y point - off_dy off) 0 (h0 - lens_height lens)
          in onLensUpdate (lens_id lens)
               [L_x newX, L_y newY,
                L_sourceX (lens_sourceX lens + (newX - lens_x lens)),
                L_sourceY (lens_sourceY lens + (newY - lens_y lens))] h))"

text \<open>
  \<open>handlePointerMove\<close> serves the first gesture that is active, in the source's order:
  text resize, text drag, sticker resize, sticker drag, lens resize, lens drag, preview.
\<close>

definition handlePointerMove :: "Metrics \<Rightarrow> Point \<Rightarrow> Home \<times> Stage \<Rightarrow> Home \<times> Stage" where
  "handlePointerMove mw point hs =
     (let h = fst hs; s = snd hs; w = size_width s; h0 = size_height s in
      if textResizeState s \<noteq> None then
        (case textResizeState s of None \<Rightarrow> hs
         | Some rs \<Rightarrow> (moveTextResize rs point h, s))
      else if truthy (activeTextId s) \<and> textDragOffsetRef s \<noteq> None then
        (case (activeTextId s, textDragOffsetRef s) of
           (Some i, Some off) \<Rightarrow> (moveTextDrag mw w h0 off i point h, s)
         | _ \<Rightarrow> hs)
      else if stickerResizeState s \<noteq> None \<and> stickerImage h \<noteq> None then
        (case (stickerResizeState s, stickerImage h) of
           (Some rs, Some img) \<Rightarrow> (moveStickerResize w h0 rs img point h, s)
         | _ \<Rightarrow> hs)
      else if truthy (activeStickerId s) \<and> stickerDragOffsetRef s \<noteq> None then
        (case (activeStickerId s, stickerDragOffsetRef s) of
           (Some i, Some off) \<Rightarrow> (moveStickerDrag w h0 off i point h, s)
         | _ \<Rightarrow> hs)
      else if resizeState s \<noteq> None then
        (case resizeState s of None \<Rightarrow> hs
         | Some rs \<Rightarrow> (moveLensResize w h0 rs point h, s))
      else if truthy (activeLensId s) \<and> dragOffsetRef s \<noteq> None then
        (case (activeLensId s, dragOffsetRef s) of
           (Some i, Some off) \<Rightarrow> (moveLensDrag w h0 off i point h, s)
         | _ \<Rightarrow> hs)
      else if dragStart s = None then hs
      else (h, s\<lparr>dragCurrent := Some point\<rparr>))"

subsection \<open>Pointer up\<close>

text \<open>
  The identifier from \<open>crypto.randomUUID()\<close> and the time from \<open>Date.now()\<close> are inputs
  of the handler.
\<close>

definition upText ::
  "Metrics \<Rightarrow> string \<Rightarrow> Point \<Rightarrow> Point \<Rightarrow> bool \<Rightarrow> Home \<times> Stage \<Rightarrow> Home \<times> Stage" where
  "upText mw newId ds end isClick hs =
     (let h = fst hs; s = snd hs; content = trim (textValue h) in
      if content = [] then (h, s\<lparr>dragStart := None, dragCurrent := None\<rparr>)
      else
        (let est = estimateTextBounds mw content (textSize h) textFont;
             estWidth = tb_width est; estHeight = tb_height est;
             x = clamp (if isClick then pt_x ds - estWidth / 2 else min (pt_x ds) (pt_x end))
                   0 (size_width s - estWidth);
             y = clamp (if isClick then pt_y ds - estHeight / 2 else min (pt_y ds) (pt_y end))
                   0 (size_height s - estHeight);
             newText = \<lparr>text_id = newId, text_x = x, text_y = y, text_text = content,
                        text_color = textColor h, text_size = textSize h,
                        text_font = textFont\<rparr>
         in (handleTextSelect newText (handleTextAdd newText h),
             s\<lparr>activeTextId := Some newId, textDragOffsetRef := None,
               dragStart := None, dragCurrent := None\<rparr>)))"

text \<open>
  The test \<open>width / height > ratio\<close>: with \<open>height\<close> zero the quotient is infinite for a
  positive width and a NaN for width zero. \<open>stickerCreateDims\<close> is the size of the new
  sticker at the ratio of the bitmap, before \<open>upSticker\<close> clamps it.
\<close>

definition overshoots :: "real \<Rightarrow> real \<Rightarrow> real \<Rightarrow> bool" where
  "overshoots width height ratio =
     (if height = 0 then 0 < width else width / height > ratio)"

definition stickerCreateDims :: "real \<Rightarrow> Image \<Rightarrow> Point \<Rightarrow> Point \<Rightarrow> real \<times> real" where
  "stickerCreateDims lsize img ds end =
     (let width0 = \<bar>pt_x end - pt_x ds\<bar>;
          height0 = \<bar>pt_y end - pt_y ds\<bar>;
          isClick = (width0 < 8 \<and> height0 < 8);
          width1 = (if isClick then lsize else width0);
          height1 = (if isClick then lsize else height0);
          ratio = stickerRatio img;
          over = overshoots width1 height1 ratio;
          width = (if over then height1 * ratio else width1);
          height = (if over then height1 else width / ratio)
      in (width, height))"

definition upSticker ::
  "string \<Rightarrow> Image \<Rightarrow> Point \<Rightarrow> Point \<Rightarrow> Home \<times> Stage \<Rightarrow> Home \<times> Stage" where
  "upSticker newId img ds end hs =
     (let h = fst hs; s = snd hs;
          isClick = (\<bar>pt_x end - pt_x ds\<bar> < 8 \<and> \<bar>pt_y end - pt_y ds\<bar> < 8);
          d = stickerCreateDims (lensSize h) img ds end;
          width = fst d; height = snd d;
          x = (if isClick then pt_x ds - width / 2 else min (pt_x ds) (pt_x end));
          y = (if isClick then pt_y ds - height / 2 else min (pt_y ds) (pt_y end));
          clampedWidth = clamp width 40 (size_width s);
          clampedHeight = clamp height 40 (size_height s);
          clampedX = clamp x 0 (size_width s - clampedWidth);
          clampedY = clamp y 0 (size_height s - clampedHeight)
      in (handleStickerAdd
            \<lparr>sticker_id = newId, sticker_x = clampedX, sticker_y = clampedY,
              sticker_width = clampedWidth, sticker_height = clampedHeight,
              sticker_image = img, sticker_shape = lensShape h\<rparr> h,
          s\<lparr>dragStart := None, dragCurrent := None\<rparr>))"

definition magnifyLens :: "string \<Rightarrow> real \<Rightarrow> Point \<Rightarrow> Point \<Rightarrow> bool \<Rightarrow> Home \<Rightarrow> Stage \<Rightarrow> Lens" where
  "magnifyLens newId now ds end isClick h s =
     (let widthHeight = min (lensSize h) (min (size_width s) (size_height s));
          targetCenter =
            (if isClick
             then \<lparr>pt_x = clamp (pt_x ds + widthHeight * 0.65) 0 (size_width s),
                   pt_y = clamp (pt_y ds - widthHeight * 0.25) 0 (size_height s)\<rparr>
             else \<lparr>pt_x = pt_x end, pt_y = pt_y end\<rparr>);
          x = clamp (pt_x targetCenter - widthHeight / 2) 0 (size_width s - widthHeight);
          y = clamp (pt_y targetCenter - widthHeight / 2) 0 (size_height s - widthHeight);
          imagePoint = toImagePoint
            (imageMetrics (size_width s) (size_height s) (effectiveImage h))
            (effectiveImage h) ds
      in \<lparr>lens_id = newId, lens_x = x, lens_y = y,
          lens_width = widthHeight, lens_height = widthHeight,
          lens_sourceX = clamp (pt_x ds) 0 (size_width s),
          lens_sourceY = clamp (pt_y ds) 0 (size_height s),
          lens_sourceImageX = pt_x imagePoint, lens_sourceImageY = pt_y imagePoint,
          lens_mode = mode h, lens_shape = lensShape h, lens_blur = blurAmount h,
          lens_magnification = magnification h, lens_createdAt = now\<rparr>)"

definition regionLens :: "string \<Rightarrow> real \<Rightarrow> Point \<Rightarrow> Point \<Rightarrow> bool \<Rightarrow> Home \<Rightarrow> Stage \<Rightarrow> Lens" where
  "regionLens newId now ds end isClick h s =
     (let width = (if isClick then lensSize h else \<bar>pt_x end - pt_x ds\<bar>);
          height = (if isClick then lensSize h else \<bar>pt_y end - pt_y ds\<bar>);
          x = (if isClick then pt_x ds - width / 2 else min (pt_x ds) (pt_x end));
          y = (if isClick then pt_y ds - height / 2 else min (pt_y ds) (pt_y end));
          clampedWidth = min width (size_width s);
          clampedHeight = min height (size_height s);
          clampedX = clamp x 0 (size_width s - clampedWidth);
          clampedY = clamp y 0 (size_height s - clampedHeight);
          imagePoint = toImagePoint
            (imageMetrics (size_width s) (size_height s) (effectiveImage h))
            (effectiveImage h)
            \<lparr>pt_x = clampedX + clampedWidth / 2, pt_y = clampedY + clampedHeight / 2\<rparr>
      in \<lparr>lens_id = newId, lens_x = clampedX, lens_y = clampedY,
          lens_width = clampedWidth, lens_height = clampedHeight,
          lens_sourceX = clampedX + clampedWidth / 2,
          lens_sourceY = clampedY + clampedHeight / 2,
          lens_sourceImageX = pt_x imagePoint, lens_sourceImageY = pt_y imagePoint,
          lens_mode = mode h, lens_shape = lensShape h, lens_blur = blurAmount h,
          lens_magnification = magnification h, lens_createdAt = now\<rparr>)"

text \<open>
  \<open>handlePointerUp\<close>: an active gesture ends; otherwise the drawn region becomes a text,
  a sticker (in sticker mode with a sticker bitmap loaded) or a lens (every other case).
\<close>

definition handlePointerUp :: "Metrics \<Rightarrow> string \<Rightarrow> real \<Rightarrow> Home \<times> Stage \<Rightarrow> Home \<times> Stage" where
  "handlePointerUp mw newId now hs =
     (let h = fst hs; s = snd hs in
      if textResizeState s \<noteq> None then (h, s\<lparr>textResizeState := None\<rparr>)
      else
       (let s1 = s\<lparr>textDragOffsetRef := None\<rparr> in
        if stickerResizeState s \<noteq> None then (h, s1\<lparr>stickerResizeState := None\<rparr>)
        else if truthy (activeStickerId s)
          then (h, s1\<lparr>activeStickerId := None, stickerDragOffsetRef := None\<rparr>)
        else if resizeState s \<noteq> None then (h, s1\<lparr>resizeState := None\<rparr>)
        else if truthy (activeLensId s)
          then (h, s1\<lparr>activeLensId := None, dragOffsetRef := None\<rparr>)
        else
         (case dragStart s of
            None \<Rightarrow> (h, s1)
          | Some ds \<Rightarrow>
             (let end = (case dragCurrent s of None \<Rightarrow> ds | Some c \<Rightarrow> c);
                  width = \<bar>pt_x end - pt_x ds\<bar>;
                  height = \<bar>pt_y end - pt_y ds\<bar>;
                  isClick = (width < 8 \<and> height < 8)
              in if mode h = TextMode then upText mw newId ds end isClick (h, s1)
                 else if mode h = StickerMode \<and> stickerImage h \<noteq> None then
                   (case stickerImage h of None \<Rightarrow> (h, s1)
                    | Some img \<Rightarrow> upSticker newId img ds end (h, s1))
                 else
                   (let lens = (if mode h = Magnify
                                then magnifyLens newId now ds end isClick h s1
                                else regionLens newId now ds end isClick h s1)
                    in (handleLensAdd lens h,
                        s1\<lparr>dragStart := None, dragCurrent := None\<rparr>))))))"

text \<open>The live preview shown while a region is drawn.\<close>

definition preview :: "Home \<Rightarrow> Stage \<Rightarrow> LensPreview option" where
  "preview h s =
     (if mode h = TextMode then None
      else case (dragStart s, dragCurrent s) of
        (Some ds, Some dc) \<Rightarrow>
          if mode h = Magnify then
            Some \<lparr>pv_x = pt_x dc - lensSize h / 2, pv_y = pt_y dc - lensSize h / 2,
                  pv_width = lensSize h, pv_height = lensSize h, pv_shape = lensShape h\<rparr>
          else
            Some \<lparr>pv_x = min (pt_x ds) (pt_x dc), pv_y = min (pt_y ds) (pt_y dc),
                  pv_width = \<bar>pt_x ds - pt_x dc\<bar>, pv_height = \<bar>pt_y ds - pt_y dc\<bar>,
                  pv_shape = lensShape h\<rparr>
      | _ \<Rightarrow> None)"


section \<open>The scene compositor (src/lib/canvas.ts)\<close>

text \<open>
  \<open>renderScene\<close> is modelled by the sequence of paint operations it issues on the canvas.
\<close>

datatype PaintOp =
    ClearRect real real
  | DrawBaseImage Image ImageMetrics
  | DrawPlaceholder string bool
  | DrawSticker Sticker
  | DrawText TextOverlay
  | DrawConnector Lens ImageMetrics
  | DrawLensContent Lens Image ImageMetrics
  | DrawGlassOverlay Lens
  | DrawPreview LensPreview

definition drawLens :: "Image option \<Rightarrow> Lens \<Rightarrow> ImageMetrics option \<Rightarrow> PaintOp list" where
  "drawLens img lens draw =
     (case (img, draw) of
        (Some i, Some d) \<Rightarrow>
          DrawLensContent lens i d #
            (if lens_mode lens = Magnify then [DrawGlassOverlay lens] else [])
      | _ \<Rightarrow> [])"

text \<open>The flag \<open>canvasOk\<close> says that the canvas and its 2D context exist.\<close>

definition renderScene ::
  "bool \<Rightarrow> Image option \<Rightarrow> Lens list \<Rightarrow> Sticker list \<Rightarrow> TextOverlay list \<Rightarrow>
   LensPreview option \<Rightarrow> real \<Rightarrow> real \<Rightarrow> string \<Rightarrow> bool \<Rightarrow> PaintOp list" where
  "renderScene canvasOk img ls sts ts pv width height backgroundColor showPlaceholder =
     (if \<not> canvasOk then []
      else
       (let draw = imageMetrics width height img in
        [ClearRect width height]
        @ (case (img, draw) of
             (Some i, Some d) \<Rightarrow> [DrawBaseImage i d]
           | _ \<Rightarrow> [DrawPlaceholder backgroundColor showPlaceholder])
        @ (if draw \<noteq> None then map DrawSticker sts else [])
        @ map DrawText ts
        @ concat (map (\<lambda>lens. case draw of None \<Rightarrow> [] | Some d \<Rightarrow> [DrawConnector lens d])
                   (filter (\<lambda>lens. lens_mode lens = Magnify) ls))
        @ concat (map (\<lambda>lens. drawLens img lens draw) ls)
        @ (case pv of None \<Rightarrow> [] | Some p \<Rightarrow> [DrawPreview p])))"

text \<open>The layers of the scene, bottom to top.\<close>

fun layer :: "PaintOp \<Rightarrow> nat" where
  "layer (ClearRect _ _) = 0"
| "layer (DrawBaseImage _ _) = 1"
| "layer (DrawPlaceholder _ _) = 1"
| "layer (DrawSticker _) = 2"
| "layer (DrawText _) = 3"
| "layer (DrawConnector _ _) = 4"
| "layer (DrawLensContent _ _ _) = 5"
| "layer (DrawGlassOverlay _) = 5"
| "layer (DrawPreview _) = 6"

text \<open>
  Where the content of a lens comes from. \<open>drawImage\<close> places the image pixel \<open>(ix, iy)\<close>
  at \<open>imageToCanvas\<close>; the magnify branch of \<open>drawLens\<close> then applies
  \<open>translate(center)\<close>, \<open>scale(m)\<close> and \<open>translate(-sourceDisplay)\<close>, which sends a canvas
  point \<open>p\<close> to \<open>center + m * (p - sourceDisplay)\<close>.
\<close>

definition imageToCanvas :: "Image \<Rightarrow> ImageMetrics \<Rightarrow> Point \<Rightarrow> Point" where
  "imageToCanvas img draw ip =
     \<lparr>pt_x = im_offsetX draw + pt_x ip * (im_drawWidth draw / real (naturalWidth img)),
      pt_y = im_offsetY draw + pt_y ip * (im_drawHeight draw / real (naturalHeight img))\<rparr>"

definition lensShows :: "Lens \<Rightarrow> Image \<Rightarrow> ImageMetrics \<Rightarrow> Point \<Rightarrow> Point" where
  "lensShows lens img draw ip =
     (if lens_mode lens = Blur then imageToCanvas img draw ip
      else
       (let centerX = lens_x lens + lens_width lens / 2;
            centerY = lens_y lens + lens_height lens / 2;
            sourceDisplayX = im_offsetX draw + lens_sourceImageX lens * im_scale draw;
            sourceDisplayY = im_offsetY draw + lens_sourceImageY lens * im_scale draw;
            m = clamp (lens_magnification lens) 1 4;
            p = imageToCanvas img draw ip
        in \<lparr>pt_x = centerX + m * (pt_x p - sourceDisplayX),
            pt_y = centerY + m * (pt_y p - sourceDisplayY)\<rparr>))"

section \<open>Properties under study\<close>

text \<open>
  The gesture that \<open>handlePointerMove\<close> serves: the conditions of its chain of tests, in
  the source's order.
\<close>

datatype Gesture =
  TextResize | TextDrag | StickerResize | StickerDrag | LensResize | LensDrag | Drawing | Idle

definition activeGesture :: "Home \<Rightarrow> Stage \<Rightarrow> Gesture" where
  "activeGesture h s =
     (if textResizeState s \<noteq> None then TextResize
      else if truthy (activeTextId s) \<and> textDragOffsetRef s \<noteq> None then TextDrag
      else if stickerResizeState s \<noteq> None \<and> stickerImage h \<noteq> None then StickerResize
      else if truthy (activeStickerId s) \<and> stickerDragOffsetRef s \<noteq> None then StickerDrag
      else if resizeState s \<noteq> None then LensResize
      else if truthy (activeLensId s) \<and> dragOffsetRef s \<noteq> None then LensDrag
      else if dragStart s \<noteq> None then Drawing
      else Idle)"

text \<open>
  The condition under which \<open>handlePointerUp\<close> reaches the creation of an entity: no
  gesture on an existing entity is ending, and a region was started.
\<close>

definition drawingRegion :: "Stage \<Rightarrow> bool" where
  "drawingRegion s \<longleftrightarrow>
     textResizeState s = None \<and> stickerResizeState s = None \<and>
     \<not> truthy (activeStickerId s) \<and> resizeState s = None \<and>
     \<not> truthy (activeLensId s) \<and> dragStart s \<noteq> None"

text \<open>An entity lies within a canvas of the given width and height.\<close>

definition lensInCanvas :: "real \<Rightarrow> real \<Rightarrow> Lens \<Rightarrow> bool" where
  "lensInCanvas w h0 l \<longleftrightarrow>
     0 \<le> lens_x l \<and> 0 \<le> lens_y l \<and>
     lens_x l + lens_width l \<le> w \<and> lens_y l + lens_height l \<le> h0"

definition stickerInCanvas :: "real \<Rightarrow> real \<Rightarrow> Sticker \<Rightarrow> bool" where
  "stickerInCanvas w h0 st \<longleftrightarrow>
     0 \<le> sticker_x st \<and> 0 \<le> sticker_y st \<and>
     sticker_x st + sticker_width st \<le> w \<and> sticker_y st + sticker_height st \<le> h0"

definition textInCanvas :: "Metrics \<Rightarrow> real \<Rightarrow> real \<Rightarrow> TextOverlay \<Rightarrow> bool" where
  "textInCanvas mw w h0 t \<longleftrightarrow>
     0 \<le> text_x t \<and> 0 \<le> text_y t \<and>
     text_x t + tb_width (getTextBounds mw t) \<le> w \<and>
     text_y t + tb_height (getTextBounds mw t) \<le> h0"

definition allInCanvas :: "Metrics \<Rightarrow> real \<Rightarrow> real \<Rightarrow> Home \<Rightarrow> bool" where
  "allInCanvas mw w h0 h \<longleftrightarrow>
     list_all (lensInCanvas w h0) (lenses h) \<and>
     list_all (stickerInCanvas w h0) (stickers h) \<and>
     list_all (textInCanvas mw w h0) (texts h)"

text \<open>
  What pointer-down leaves behind for the moves that follow: identifiers are distinct
  (they are fresh UUIDs), and the start geometry of a resize is at the position of the
  entity it names.
\<close>

definition anchored :: "Home \<Rightarrow> Stage \<Rightarrow> bool" where
  "anchored h s \<longleftrightarrow>
     distinct (map lens_id (lenses h)) \<and>
     distinct (map sticker_id (stickers h)) \<and>
     distinct (map text_id (texts h)) \<and>
     (case resizeState s of None \<Rightarrow> True
      | Some rs \<Rightarrow>
         list_all (\<lambda>l. lens_id l \<noteq> rs_id rs \<or>
                       (lens_x l = rect_x (rs_start rs) \<and> lens_y l = rect_y (rs_start rs)))
           (lenses h)) \<and>
     (case stickerResizeState s of None \<Rightarrow> True
      | Some rs \<Rightarrow>
         list_all (\<lambda>st. sticker_id st \<noteq> rs_id rs \<or>
                        (sticker_x st = rect_x (rs_start rs) \<and>
                         sticker_y st = rect_y (rs_start rs)))
           (stickers h))"

text \<open>
  A stage on which no gesture is in progress and no text is selected, and a point of the
  canvas under which the hit tests of pointer-down find no text, sticker or lens.
\<close>

definition idle :: "Stage \<Rightarrow> bool" where
  "idle s \<longleftrightarrow>
     textResizeState s = None \<and> stickerResizeState s = None \<and> resizeState s = None \<and>
     \<not> truthy (activeStickerId s) \<and> \<not> truthy (activeLensId s) \<and>
     \<not> truthy (activeTextId s)"

definition emptyAt :: "Metrics \<Rightarrow> Home \<Rightarrow> Point \<Rightarrow> bool" where
  "emptyAt mw h p \<longleftrightarrow>
     find (\<lambda>t. isWithinText mw t p) (rev (texts h)) = None \<and>
     find (\<lambda>st. isWithinLens (stickerBox st) p) (rev (stickers h)) = None \<and>
     find (\<lambda>lens. isWithinLens (lensBox lens) p) (rev (lenses h)) = None"

text \<open>The centre of a lens on the canvas.\<close>

definition lensCenter :: "Lens \<Rightarrow> Point" where
  "lensCenter l = \<lparr>pt_x = lens_x l + lens_width l / 2, pt_y = lens_y l + lens_height l / 2\<rparr>"

text \<open>
  The fields of a lens that neither drag nor resize may touch, and the shift of the
  source point with the position.
\<close>

definition lensFrame :: "Lens \<Rightarrow> Lens \<Rightarrow> bool" where
  "lensFrame l l' \<longleftrightarrow>
     lens_id l' = lens_id l \<and>
     lens_sourceImageX l' = lens_sourceImageX l \<and>
     lens_sourceImageY l' = lens_sourceImageY l \<and>
     lens_mode l' = lens_mode l \<and> lens_shape l' = lens_shape l \<and>
     lens_blur l' = lens_blur l \<and> lens_magnification l' = lens_magnification l \<and>
     lens_createdAt l' = lens_createdAt l \<and>
     lens_sourceX l' - lens_sourceX l = lens_x l' - lens_x l \<and>
     lens_sourceY l' - lens_sourceY l = lens_y l' - lens_y l"

section \<open>Example inputs\<close>

definition exImage :: Image where
  "exImage = \<lparr>naturalWidth = 900, naturalHeight = 600\<rparr>"

definition exStickerImage :: Image where
  "exStickerImage = \<lparr>naturalWidth = 400, naturalHeight = 200\<rparr>"

definition exLens :: Lens where
  "exLens = \<lparr>lens_id = ''lens-1'', lens_x = 100, lens_y = 100, lens_width = 200,
     lens_height = 200, lens_sourceX = 40, lens_sourceY = 60, lens_sourceImageX = 40,
     lens_sourceImageY = 60, lens_mode = Magnify, lens_shape = Circle, lens_blur = 12,
     lens_magnification = 2, lens_createdAt = 0\<rparr>"

definition exSticker :: Sticker where
  "exSticker = \<lparr>sticker_id = ''sticker-1'', sticker_x = 0, sticker_y = 0,
     sticker_width = 100, sticker_height = 50, sticker_image = exStickerImage,
     sticker_shape = Circle\<rparr>"

definition exText :: TextOverlay where
  "exText = \<lparr>text_id = ''text-1'', text_x = 0, text_y = 550, text_text = ''Hi'',
     text_color = ''#f5f5f5'', text_size = 25, text_font = ''Terminus''\<rparr>"

text \<open>A page with the 900 by 600 image loaded, and a stage of the same size.\<close>

definition exHome :: Home where
  "exHome = initialHome\<lparr>imageSrc := ''data:image'', imageEl := Some exImage\<rparr>"

definition exStage :: Stage where
  "exStage = initialStage\<lparr>size_width := 900, size_height := 600\<rparr>"

text \<open>The stage while the example lens is dragged, grabbed 10 units inside its corner.\<close>

definition exDragStage :: Stage where
  "exDragStage = exStage\<lparr>activeLensId := Some ''lens-1'',
     dragOffsetRef := Some \<lparr>off_dx = 10, off_dy = 10\<rparr>\<rparr>"

definition exMovedLens :: Lens where
  "exMovedLens = exLens\<lparr>lens_x := 490, lens_y := 290, lens_sourceX := 430,
     lens_sourceY := 250\<rparr>"

definition exMetrics :: ImageMetrics where
  "exMetrics = \<lparr>im_scale = 1, im_offsetX = 0, im_offsetY = 0, im_drawWidth = 900,
     im_drawHeight = 600\<rparr>"

text \<open>The stage after a secondary-button press on the example lens at (150, 200).\<close>

definition exResizeStage :: Stage where
  "exResizeStage = exStage\<lparr>resizeState := Some \<lparr>rs_id = ''lens-1'',
     rs_start = \<lparr>rect_x = 100, rect_y = 100, rect_width = 200, rect_height = 200\<rparr>,
     rs_startPoint = \<lparr>pt_x = 150, pt_y = 200\<rparr>\<rparr>\<rparr>"

text \<open>A page with a sticker bitmap loaded and the example sticker placed.\<close>

definition exStickerHome :: Home where
  "exStickerHome = exHome\<lparr>stickerSrc := Some ''data:sticker'',
     stickerImage := Some exStickerImage, mode := StickerMode, stickers := [exSticker]\<rparr>"

text \<open>The stage after a secondary-button press on the example sticker at (50, 25).\<close>

definition exStickerResizeStage :: Stage where
  "exStickerResizeStage = exStage\<lparr>stickerResizeState := Some \<lparr>rs_id = ''sticker-1'',
     rs_start = \<lparr>rect_x = 0, rect_y = 0, rect_width = 100, rect_height = 50\<rparr>,
     rs_startPoint = \<lparr>pt_x = 50, pt_y = 25\<rparr>\<rparr>\<rparr>"

text \<open>The stage while a region is drawn from (100, 100) to the given point.\<close>

definition exDrawStage :: "Point \<Rightarrow> Stage" where
  "exDrawStage c = exStage\<lparr>dragStart := Some \<lparr>pt_x = 100, pt_y = 100\<rparr>,
     dragCurrent := Some c\<rparr>"

text \<open>Magnify mode with lens size 200, after a press at (50, 50) on the empty canvas.\<close>

definition exMagnifyHome :: Home where
  "exMagnifyHome = exHome\<lparr>mode := Magnify, lensSize := 200\<rparr>"

definition exClickStage :: Stage where
  "exClickStage = exStage\<lparr>dragStart := Some \<lparr>pt_x = 50, pt_y = 50\<rparr>,
     dragCurrent := Some \<lparr>pt_x = 50, pt_y = 50\<rparr>\<rparr>"

definition exMagnifyLens :: Lens where
  "exMagnifyLens = \<lparr>lens_id = ''lens-2'', lens_x = 80, lens_y = 0, lens_width = 200,
     lens_height = 200, lens_sourceX = 50, lens_sourceY = 50, lens_sourceImageX = 50,
     lens_sourceImageY = 50, lens_mode = Magnify, lens_shape = Circle, lens_blur = 12,
     lens_magnification = 2, lens_createdAt = 0\<rparr>"

text \<open>A page with the example text placed, near the bottom edge of the canvas.\<close>

definition exTextHome :: Home where
  "exTextHome = exHome\<lparr>texts := [exText]\<rparr>"

text \<open>A preview rectangle, as shown while a region is drawn.\<close>

definition exPreview :: LensPreview where
  "exPreview = \<lparr>pv_x = 10, pv_y = 10, pv_width = 50, pv_height = 40, pv_shape = Rounded\<rparr>"


text \<open>
  The page with the example sticker after another sticker file, a 200 by 600 bitmap, was
  picked and has loaded.
\<close>

definition exTallImage :: Image where
  "exTallImage = \<lparr>naturalWidth = 200, naturalHeight = 600\<rparr>"

definition exSwappedHome :: Home where
  "exSwappedHome = stickerLoaded exTallImage (handleStickerPicked ''data:tall'' exStickerHome)"



section \<open>Undo history\<close>

lemma length_sliceLast: "length (sliceLast n xs) = min n (length xs)"
  by (simp add: sliceLast_def)

lemma sliceLast_sliceLast_append:
  assumes "n \<le> m + length ys"
  shows "sliceLast n (sliceLast m xs @ ys) = sliceLast n (xs @ ys)"
proof -
  let ?k = "length xs - m"
  have eq: "drop ?k xs @ ys = drop ?k (xs @ ys)" by simp
  have len: "length (drop ?k xs @ ys) - n + ?k = length (xs @ ys) - n"
    using assms by simp
  have "sliceLast n (drop ?k xs @ ys) = drop (length (drop ?k xs @ ys) - n) (drop ?k (xs @ ys))"
    unfolding sliceLast_def eq ..
  also have "\<dots> = drop (length (drop ?k xs @ ys) - n + ?k) (xs @ ys)"
    by (simp only: drop_drop)
  also have "\<dots> = sliceLast n (xs @ ys)"
    unfolding len sliceLast_def ..
  finally show ?thesis by (simp add: sliceLast_def)
qed

lemma history_pushHistory:
  "\<not> isUndoing h \<Longrightarrow>
   history (pushHistory ls ss ts h) =
     sliceLast 49 (history h) @ [\<lparr>snap_lenses = ls, snap_stickers = ss, snap_texts = ts\<rparr>]"
  by (simp add: pushHistory_def)

lemma pushHistory_frame:
  "lenses (pushHistory ls ss ts h) = lenses h"
  "stickers (pushHistory ls ss ts h) = stickers h"
  "texts (pushHistory ls ss ts h) = texts h"
  "isUndoing (pushHistory ls ss ts h) = isUndoing h"
  "stickerImage (pushHistory ls ss ts h) = stickerImage h"
  by (simp_all add: pushHistory_def)

lemma length_history_pushHistory:
  "length (history h) \<le> 50 \<Longrightarrow> length (history (pushHistory ls ss ts h)) \<le> 50"
  by (simp add: pushHistory_def length_sliceLast)

lemmas store_defs =
  handleLensAdd_def handleStickerAdd_def handleTextAdd_def onLensUpdate_def
  onStickerUpdate_def onTextUpdate_def handleReset_def Let_def

lemma history_perform:
  "\<not> isUndoing h \<Longrightarrow> mutating a \<Longrightarrow>
   history (perform a h) = sliceLast 49 (history h) @ [snapshotOf h]"
  by (cases a) (simp_all add: store_defs history_pushHistory snapshotOf_def)

lemma isUndoing_perform: "isUndoing (perform a h) = isUndoing h"
  by (cases a) (simp_all add: store_defs pushHistory_frame)

lemma length_history_perform:
  "length (history h) \<le> 50 \<Longrightarrow> length (history (perform a h)) \<le> 50"
  by (cases a) (simp_all add: store_defs length_history_pushHistory)

lemma length_history_step:
  "length (history h) \<le> 50 \<Longrightarrow> length (history (step e h)) \<le> 50"
  by (cases e)
     (auto simp: length_history_perform handleUndo_def undoTimeout_def
        handleFilePicked_def handleStickerPicked_def imageLoaded_def stickerLoaded_def
        Let_def)

lemma length_history_run:
  "length (history h) \<le> 50 \<Longrightarrow> length (history (run evs h)) \<le> 50"
  unfolding run_def
  by (induction evs arbitrary: h) (simp_all add: length_history_step)

lemma history_performAll:
  "list_all mutating acts \<Longrightarrow> \<not> isUndoing h \<Longrightarrow> length (history h) \<le> 50 \<Longrightarrow>
   history (performAll acts h) = sliceLast 50 (history h @ snapshotsBefore acts h)"
proof (induction acts arbitrary: h)
  case Nil
  then show ?case by (simp add: performAll_def sliceLast_def)
next
  case (Cons a acts)
  have m: "mutating a" and ms: "list_all mutating acts" using Cons.prems(1) by simp_all
  have u: "\<not> isUndoing (perform a h)" using Cons.prems(2) by (simp add: isUndoing_perform)
  have l: "length (history (perform a h)) \<le> 50"
    using Cons.prems(3) by (rule length_history_perform)
  have "history (performAll (a # acts) h) = history (performAll acts (perform a h))"
    by (simp add: performAll_def)
  also have "\<dots> = sliceLast 50 (history (perform a h) @ snapshotsBefore acts (perform a h))"
    using Cons.IH [OF ms u l] .
  also have "\<dots> = sliceLast 50
      (sliceLast 49 (history h) @ (snapshotOf h # snapshotsBefore acts (perform a h)))"
    using Cons.prems(2) m by (simp add: history_perform)
  also have "\<dots> = sliceLast 50 (history h @ (snapshotOf h # snapshotsBefore acts (perform a h)))"
    by (rule sliceLast_sliceLast_append) simp
  finally show ?case by simp
qed

lemma length_snapshotsBefore: "length (snapshotsBefore acts h) = length acts"
  by (induction acts arbitrary: h) simp_all




text \<open>
  C6. History bound. Whatever events reach the page, a history of at most 50 snapshots
  stays at most 50 long. Starting with an empty history, a sequence of mutating actions
  leaves the last 50 of the snapshots taken before each action, oldest first; after 60
  actions exactly 50 remain, those of the 50 most recent actions.
\<close>

theorem history_bound:
  "(length (history h) \<le> 50 \<longrightarrow> length (history (run evs h)) \<le> 50) \<and>
   (list_all mutating acts \<and> \<not> isUndoing h \<and> history h = [] \<longrightarrow>
      history (performAll acts h) = sliceLast 50 (snapshotsBefore acts h) \<and>
      (length acts = 60 \<longrightarrow>
         length (history (performAll acts h)) = 50 \<and>
         history (performAll acts h) = drop 10 (snapshotsBefore acts h)))"
proof (intro conjI impI)
  assume "length (history h) \<le> 50"
  then show "length (history (run evs h)) \<le> 50" by (rule length_history_run)
next
  assume a: "list_all mutating acts \<and> \<not> isUndoing h \<and> history h = []"
  then show eq: "history (performAll acts h) = sliceLast 50 (snapshotsBefore acts h)"
    using history_performAll [of acts h] by simp
  assume n: "length acts = 60"
  show "length (history (performAll acts h)) = 50"
    using eq n by (simp add: length_sliceLast length_snapshotsBefore)
  show "history (performAll acts h) = drop 10 (snapshotsBefore acts h)"
    using eq n by (simp add: sliceLast_def length_snapshotsBefore)
qed

theorem history_bound_witness:
  "length (history (run (replicate 60 (Act (AddLens exLens))) initialHome)) \<le> 50 \<and>
   length (history (performAll (replicate 60 (AddLens exLens)) initialHome)) = 50 \<and>
   history (performAll (replicate 60 (AddLens exLens)) initialHome) =
     drop 10 (snapshotsBefore (replicate 60 (AddLens exLens)) initialHome)"
proof -
  have l: "length (history initialHome) \<le> 50" by (simp add: initialHome_def)
  have m: "list_all mutating (replicate 60 (AddLens exLens))"
    by (simp add: list_all_iff)
  have u: "\<not> isUndoing initialHome" and e: "history initialHome = []"
    by (simp_all add: initialHome_def)
  have n: "length (replicate 60 (AddLens exLens)) = 60" by simp
  show ?thesis
    using history_bound [of initialHome "replicate 60 (Act (AddLens exLens))"
        "replicate 60 (AddLens exLens)"] l m u e n
    by blast
qed

section \<open>Picking a sticker file\<close>

text \<open>
  C3, as the claim states it, fails: a sticker that exists when a new sticker file is
  picked is still in the store afterwards.
\<close>

theorem sticker_picked_counterexample:
  "stickers (handleStickerPicked ''data:new'' (exHome\<lparr>stickers := [exSticker]\<rparr>)) \<noteq> []"
  by (simp add: handleStickerPicked_def)

text \<open>
  C3, amended. Picking a new sticker file replaces the sticker source and empties the undo
  history; the lens, sticker and text collections stay as they are, also once the new
  bitmap has loaded. (Existing stickers keep the bitmap they were created with.)
\<close>

theorem sticker_picked_keeps_overlays:
  "stickerSrc (handleStickerPicked r h) = Some r \<and>
   history (handleStickerPicked r h) = [] \<and>
   stickers (handleStickerPicked r h) = stickers h \<and>
   lenses (handleStickerPicked r h) = lenses h \<and>
   texts (handleStickerPicked r h) = texts h \<and>
   stickers (stickerLoaded img (handleStickerPicked r h)) = stickers h"
  by (simp add: handleStickerPicked_def stickerLoaded_def)

section \<open>Pointer moves\<close>

subsection \<open>Which branch a move takes\<close>


lemma gesture_conds:
  "activeGesture h s = TextResize \<longleftrightarrow> textResizeState s \<noteq> None"
  "activeGesture h s = TextDrag \<longleftrightarrow> textResizeState s = None \<and>
     (truthy (activeTextId s) \<and> textDragOffsetRef s \<noteq> None)"
  "activeGesture h s = StickerResize \<longleftrightarrow> textResizeState s = None \<and>
     \<not> (truthy (activeTextId s) \<and> textDragOffsetRef s \<noteq> None) \<and>
     (stickerResizeState s \<noteq> None \<and> stickerImage h \<noteq> None)"
  "activeGesture h s = StickerDrag \<longleftrightarrow> textResizeState s = None \<and>
     \<not> (truthy (activeTextId s) \<and> textDragOffsetRef s \<noteq> None) \<and>
     \<not> (stickerResizeState s \<noteq> None \<and> stickerImage h \<noteq> None) \<and>
     (truthy (activeStickerId s) \<and> stickerDragOffsetRef s \<noteq> None)"
  "activeGesture h s = LensResize \<longleftrightarrow> textResizeState s = None \<and>
     \<not> (truthy (activeTextId s) \<and> textDragOffsetRef s \<noteq> None) \<and>
     \<not> (stickerResizeState s \<noteq> None \<and> stickerImage h \<noteq> None) \<and>
     \<not> (truthy (activeStickerId s) \<and> stickerDragOffsetRef s \<noteq> None) \<and>
     resizeState s \<noteq> None"
  "activeGesture h s = LensDrag \<longleftrightarrow> textResizeState s = None \<and>
     \<not> (truthy (activeTextId s) \<and> textDragOffsetRef s \<noteq> None) \<and>
     \<not> (stickerResizeState s \<noteq> None \<and> stickerImage h \<noteq> None) \<and>
     \<not> (truthy (activeStickerId s) \<and> stickerDragOffsetRef s \<noteq> None) \<and>
     resizeState s = None \<and> (truthy (activeLensId s) \<and> dragOffsetRef s \<noteq> None)"
  "activeGesture h s = Drawing \<longleftrightarrow> textResizeState s = None \<and>
     \<not> (truthy (activeTextId s) \<and> textDragOffsetRef s \<noteq> None) \<and>
     \<not> (stickerResizeState s \<noteq> None \<and> stickerImage h \<noteq> None) \<and>
     \<not> (truthy (activeStickerId s) \<and> stickerDragOffsetRef s \<noteq> None) \<and>
     resizeState s = None \<and> \<not> (truthy (activeLensId s) \<and> dragOffsetRef s \<noteq> None) \<and>
     dragStart s \<noteq> None"
  "activeGesture h s = Idle \<longleftrightarrow> textResizeState s = None \<and>
     \<not> (truthy (activeTextId s) \<and> textDragOffsetRef s \<noteq> None) \<and>
     \<not> (stickerResizeState s \<noteq> None \<and> stickerImage h \<noteq> None) \<and>
     \<not> (truthy (activeStickerId s) \<and> stickerDragOffsetRef s \<noteq> None) \<and>
     resizeState s = None \<and> \<not> (truthy (activeLensId s) \<and> dragOffsetRef s \<noteq> None) \<and>
     dragStart s = None"
  unfolding activeGesture_def by simp_all


lemma move_TextResize:
  "activeGesture h s = TextResize \<Longrightarrow> textResizeState s = Some rs \<Longrightarrow>
     handlePointerMove mw p (h, s) = (moveTextResize rs p h, s)"
  unfolding gesture_conds by (auto simp: handlePointerMove_def Let_def)

lemma move_TextDrag:
  "activeGesture h s = TextDrag \<Longrightarrow> activeTextId s = Some i \<Longrightarrow>
   textDragOffsetRef s = Some off \<Longrightarrow>
     handlePointerMove mw p (h, s) =
       (moveTextDrag mw (size_width s) (size_height s) off i p h, s)"
  unfolding gesture_conds by (auto simp: handlePointerMove_def Let_def)

lemma move_StickerResize:
  "activeGesture h s = StickerResize \<Longrightarrow> stickerResizeState s = Some rs \<Longrightarrow>
   stickerImage h = Some img \<Longrightarrow>
     handlePointerMove mw p (h, s) =
       (moveStickerResize (size_width s) (size_height s) rs img p h, s)"
  unfolding gesture_conds by (auto simp: handlePointerMove_def Let_def)

lemma move_StickerDrag:
  "activeGesture h s = StickerDrag \<Longrightarrow> activeStickerId s = Some i \<Longrightarrow>
   stickerDragOffsetRef s = Some off \<Longrightarrow>
     handlePointerMove mw p (h, s) =
       (moveStickerDrag (size_width s) (size_height s) off i p h, s)"
  unfolding gesture_conds by (auto simp: handlePointerMove_def Let_def)

lemma move_LensResize:
  "activeGesture h s = LensResize \<Longrightarrow> resizeState s = Some rs \<Longrightarrow>
     handlePointerMove mw p (h, s) =
       (moveLensResize (size_width s) (size_height s) rs p h, s)"
  unfolding gesture_conds by (auto simp: handlePointerMove_def Let_def)

lemma move_LensDrag:
  "activeGesture h s = LensDrag \<Longrightarrow> activeLensId s = Some i \<Longrightarrow>
   dragOffsetRef s = Some off \<Longrightarrow>
     handlePointerMove mw p (h, s) =
       (moveLensDrag (size_width s) (size_height s) off i p h, s)"
  unfolding gesture_conds by (auto simp: handlePointerMove_def Let_def)

lemma move_Drawing:
  "activeGesture h s = Drawing \<Longrightarrow>
     handlePointerMove mw p (h, s) = (h, s\<lparr>dragCurrent := Some p\<rparr>)"
  unfolding gesture_conds by (auto simp: handlePointerMove_def Let_def)

lemma move_Idle:
  "activeGesture h s = Idle \<Longrightarrow> handlePointerMove mw p (h, s) = (h, s)"
  unfolding gesture_conds by (auto simp: handlePointerMove_def Let_def)

lemma gesture_state:
  "activeGesture h s = TextResize \<Longrightarrow> \<exists>rs. textResizeState s = Some rs"
  "activeGesture h s = TextDrag \<Longrightarrow>
     \<exists>i off. activeTextId s = Some i \<and> textDragOffsetRef s = Some off"
  "activeGesture h s = StickerResize \<Longrightarrow>
     \<exists>rs img. stickerResizeState s = Some rs \<and> stickerImage h = Some img"
  "activeGesture h s = StickerDrag \<Longrightarrow>
     \<exists>i off. activeStickerId s = Some i \<and> stickerDragOffsetRef s = Some off"
  "activeGesture h s = LensResize \<Longrightarrow> \<exists>rs. resizeState s = Some rs"
  "activeGesture h s = LensDrag \<Longrightarrow>
     \<exists>i off. activeLensId s = Some i \<and> dragOffsetRef s = Some off"
  unfolding gesture_conds by (auto simp: truthy_def split: option.splits)


subsection \<open>What a pointer move does to the three collections\<close>

lemma lenses_onLensUpdate:
  "lenses (onLensUpdate i p h) =
     map (\<lambda>l. if lens_id l = i then mergeLens l p else l) (lenses h)"
  by (simp add: onLensUpdate_def Let_def pushHistory_frame)

lemma stickers_onStickerUpdate:
  "stickers (onStickerUpdate i p h) =
     map (\<lambda>st. if sticker_id st = i then mergeSticker st p else st) (stickers h)"
  by (simp add: onStickerUpdate_def Let_def pushHistory_frame)

lemma texts_onTextUpdate:
  "texts (onTextUpdate i p h) =
     map (\<lambda>t. if text_id t = i then mergeText t p else t) (texts h)"
  by (simp add: onTextUpdate_def Let_def pushHistory_frame)

lemma update_others:
  "stickers (onLensUpdate i p h) = stickers h" "texts (onLensUpdate i p h) = texts h"
  "lenses (onStickerUpdate j q h) = lenses h" "texts (onStickerUpdate j q h) = texts h"
  "lenses (onTextUpdate k r h) = lenses h" "stickers (onTextUpdate k r h) = stickers h"
  by (simp_all add: onLensUpdate_def onStickerUpdate_def onTextUpdate_def Let_def
        pushHistory_frame)



lemma find_distinct:
  assumes "distinct (map f xs)" "find (\<lambda>y. f y = k) xs = Some x" "y \<in> set xs" "f y = f x"
  shows "y = x"
proof -
  have "x \<in> set xs" using assms(2) by (induction xs) (auto split: if_splits)
  moreover have "inj_on f (set xs)" using assms(1) by (simp add: distinct_map)
  ultimately show ?thesis using assms(3,4) by (auto dest: inj_onD)
qed

lemma find_id: "find (\<lambda>y. f y = k) xs = Some x \<Longrightarrow> f x = k"
  by (induction xs) (auto split: if_splits)

lemma list_all2_map_same:
  "(\<And>x. x \<in> set xs \<Longrightarrow> P x (f x)) \<Longrightarrow> list_all2 P xs (map f xs)"
  by (simp add: list_all2_map2 list_all2_same)

lemma lensFrame_refl: "lensFrame l l"
  by (simp add: lensFrame_def)

lemma frame_same: "list_all2 lensFrame ls ls"
  by (simp add: list_all2_same lensFrame_refl)



lemma lenses_moveText:
  "lenses (moveTextResize rs p h) = lenses h"
  "lenses (moveTextDrag mw w h0 off i p h) = lenses h"
  by (simp_all add: moveTextResize_def moveTextDrag_def Let_def update_others
        split: option.splits)

lemma lenses_moveSticker:
  "lenses (moveStickerResize w h0 rs img p h) = lenses h"
  "lenses (moveStickerDrag w h0 off i p h) = lenses h"
  by (simp_all add: moveStickerResize_def moveStickerDrag_def Let_def update_others
        split: option.splits)

lemma frame_moveLensResize:
  "list_all2 lensFrame (lenses h) (lenses (moveLensResize w h0 rs p h))"
  unfolding moveLensResize_def Let_def lenses_onLensUpdate
  by (rule list_all2_map_same) (simp add: lensFrame_def mergeLens_def)

lemma frame_moveLensDrag:
  assumes "distinct (map lens_id (lenses h))"
  shows "list_all2 lensFrame (lenses h) (lenses (moveLensDrag w h0 off i p h))"
proof (cases "find (\<lambda>l. lens_id l = i) (lenses h)")
  case None
  then show ?thesis
    by (simp add: moveLensDrag_def frame_same)
next
  case (Some lens)
  have same: "l = lens" if "l \<in> set (lenses h)" "lens_id l = lens_id lens" for l
    using find_distinct [OF assms Some that] .
  show ?thesis
    unfolding moveLensDrag_def Some option.case Let_def lenses_onLensUpdate
    by (rule list_all2_map_same) (auto simp: lensFrame_def mergeLens_def dest: same)
qed

lemma frame_handlePointerMove:
  assumes "distinct (map lens_id (lenses h))"
  shows "list_all2 lensFrame (lenses h) (lenses (fst (handlePointerMove mw p (h, s))))"
proof (cases "activeGesture h s")
  case TextResize
  then obtain rs where "textResizeState s = Some rs" using gesture_state(1) by blast
  then show ?thesis
    using TextResize by (simp add: move_TextResize lenses_moveText frame_same)
next
  case TextDrag
  then obtain i off where "activeTextId s = Some i" "textDragOffsetRef s = Some off"
    using gesture_state(2) by blast
  then show ?thesis
    using TextDrag by (simp add: move_TextDrag lenses_moveText frame_same)
next
  case StickerResize
  then obtain rs img where "stickerResizeState s = Some rs" "stickerImage h = Some img"
    using gesture_state(3) by blast
  then show ?thesis
    using StickerResize by (simp add: move_StickerResize lenses_moveSticker frame_same)
next
  case StickerDrag
  then obtain i off where "activeStickerId s = Some i" "stickerDragOffsetRef s = Some off"
    using gesture_state(4) by blast
  then show ?thesis
    using StickerDrag by (simp add: move_StickerDrag lenses_moveSticker frame_same)
next
  case LensResize
  then obtain rs where "resizeState s = Some rs" using gesture_state(5) by blast
  then show ?thesis
    using LensResize by (simp add: move_LensResize frame_moveLensResize)
next
  case LensDrag
  then obtain i off where "activeLensId s = Some i" "dragOffsetRef s = Some off"
    using gesture_state(6) by blast
  then show ?thesis
    using LensDrag assms by (simp add: move_LensDrag frame_moveLensDrag)
next
  case Drawing
  then show ?thesis by (simp add: move_Drawing frame_same)
next
  case Idle
  then show ?thesis by (simp add: move_Idle frame_same)
qed

subsection \<open>The source point of a lens\<close>


lemma imageToCanvas_metrics:
  assumes "imageMetrics w h0 (Some img) = Some d" "0 < naturalWidth img" "0 < naturalHeight img"
  shows "imageToCanvas img d ip =
           \<lparr>pt_x = im_offsetX d + pt_x ip * im_scale d,
            pt_y = im_offsetY d + pt_y ip * im_scale d\<rparr>"
  using assms by (auto simp: imageMetrics_def imageToCanvas_def Let_def)

lemma lensShows_source:
  assumes "imageMetrics w h0 (Some img) = Some d" "0 < naturalWidth img" "0 < naturalHeight img"
    "lens_mode l \<noteq> Blur"
  shows "lensShows l img d \<lparr>pt_x = lens_sourceImageX l, pt_y = lens_sourceImageY l\<rparr>
           = lensCenter l"
  using assms(4)
  by (simp add: lensShows_def Let_def lensCenter_def imageToCanvas_metrics [OF assms(1-3)])

lemma lensShows_frame:
  assumes "lensFrame l l'" "imageMetrics w h0 (Some img) = Some d"
    "0 < naturalWidth img" "0 < naturalHeight img" "lens_mode l \<noteq> Blur"
  shows "lensShows l' img d \<lparr>pt_x = lens_sourceImageX l, pt_y = lens_sourceImageY l\<rparr>
           = lensCenter l'"
proof -
  have "lens_sourceImageX l = lens_sourceImageX l'" "lens_sourceImageY l = lens_sourceImageY l'"
    "lens_mode l' \<noteq> Blur"
    using assms(1,5) by (simp_all add: lensFrame_def)
  then show ?thesis
    using lensShows_source [OF assms(2-4), of l'] by simp
qed

lemmas ex_defs = exHome_def initialHome_def exStage_def initialStage_def exLens_def
  exSticker_def exText_def exImage_def exStickerImage_def exDragStage_def exMovedLens_def
  exMetrics_def exResizeStage_def exStickerHome_def exStickerResizeStage_def exDrawStage_def
  exMagnifyHome_def exClickStage_def exMagnifyLens_def exTextHome_def

lemmas eval_defs = handlePointerMove_def handlePointerDown_def handlePointerUp_def
  Let_def truthy_def clamp_def pushHistory_def sliceLast_def
  moveLensDrag_def moveLensResize_def moveStickerDrag_def moveStickerResize_def
  moveTextDrag_def moveTextResize_def lensResizeDims_def stickerResizeDims_def
  stickerResizeRaw_def stickerRatio_def onLensUpdate_def onStickerUpdate_def
  onTextUpdate_def mergeLens_def mergeSticker_def mergeText_def
  isWithinLens_def isWithinText_def lensBox_def stickerBox_def effectiveImage_def
  handleLensAdd_def handleStickerAdd_def handleTextAdd_def handleTextSelect_def
  upText_def upSticker_def stickerCreateDims_def overshoots_def magnifyLens_def
  regionLens_def toImagePoint_def imageMetrics_def getTextBounds_def
  estimateTextBounds_def measureText_def noCanvasMetrics_def splitLines_def

text \<open>
  C10. A pointer move, whatever gesture it serves, leaves every lens its id, its
  sourceImageX and sourceImageY, its mode, shape, blur, magnification and creation time,
  and shifts sourceX and sourceY by exactly the shift of x and y (both zero for a resize).
  The magnify branch of \<open>drawLens\<close> shows at the centre of the lens the image pixel
  \<open>(sourceImageX, sourceImageY)\<close>; so after the move the lens still shows, at its new
  centre, the image point it recorded before. Lens identifiers are distinct.
\<close>

theorem lens_source_fixed:
  assumes "distinct (map lens_id (lenses h))"
  shows "list_all2
           (\<lambda>l l'. lensFrame l l' \<and>
              (\<forall>img w h0 d.
                 lens_mode l \<noteq> Blur \<and> 0 < naturalWidth img \<and> 0 < naturalHeight img \<and>
                 imageMetrics w h0 (Some img) = Some d \<longrightarrow>
                 lensShows l' img d
                   \<lparr>pt_x = lens_sourceImageX l, pt_y = lens_sourceImageY l\<rparr> = lensCenter l'))
           (lenses h) (lenses (fst (handlePointerMove mw p (h, s))))"
proof -
  have "list_all2 lensFrame (lenses h) (lenses (fst (handlePointerMove mw p (h, s))))"
    using assms by (rule frame_handlePointerMove)
  then show ?thesis
    by (rule list_all2_mono) (auto intro: lensShows_frame)
qed

theorem lens_source_fixed_witness:
  "lenses (fst (handlePointerMove noCanvasMetrics \<lparr>pt_x = 500, pt_y = 300\<rparr>
       (exHome\<lparr>lenses := [exLens]\<rparr>, exDragStage))) = [exMovedLens] \<and>
   lensFrame exLens exMovedLens \<and>
   lensShows exMovedLens exImage exMetrics \<lparr>pt_x = 40, pt_y = 60\<rparr> = lensCenter exMovedLens"
proof -
  let ?h = "exHome\<lparr>lenses := [exLens]\<rparr>"
  let ?p = "\<lparr>pt_x = 500, pt_y = 300\<rparr>"
  have d: "distinct (map lens_id (lenses ?h))" by simp
  have ev: "lenses (fst (handlePointerMove noCanvasMetrics ?p (?h, exDragStage))) = [exMovedLens]"
    by (simp add: eval_defs ex_defs)
  have m: "imageMetrics 900 600 (Some exImage) = Some exMetrics"
    by (simp add: imageMetrics_def exImage_def exMetrics_def Let_def)
  have src: "lens_sourceImageX exLens = 40" "lens_sourceImageY exLens = 60"
    "lens_mode exLens \<noteq> Blur" "0 < naturalWidth exImage" "0 < naturalHeight exImage"
    by (simp_all add: exLens_def exImage_def)
  have h: "lenses ?h = [exLens]" by simp
  have "list_all2
           (\<lambda>l l'. lensFrame l l' \<and>
              (\<forall>img w h0 d.
                 lens_mode l \<noteq> Blur \<and> 0 < naturalWidth img \<and> 0 < naturalHeight img \<and>
                 imageMetrics w h0 (Some img) = Some d \<longrightarrow>
                 lensShows l' img d
                   \<lparr>pt_x = lens_sourceImageX l, pt_y = lens_sourceImageY l\<rparr> = lensCenter l'))
           [exLens] [exMovedLens]"
    using lens_source_fixed [OF d, of noCanvasMetrics ?p exDragStage]
    unfolding ev h .
  then have frame: "lensFrame exLens exMovedLens"
    and sh: "lens_mode exLens \<noteq> Blur \<and> 0 < naturalWidth exImage \<and>
        0 < naturalHeight exImage \<and> imageMetrics 900 600 (Some exImage) = Some exMetrics \<longrightarrow>
        lensShows exMovedLens exImage exMetrics
          \<lparr>pt_x = lens_sourceImageX exLens, pt_y = lens_sourceImageY exLens\<rparr> =
        lensCenter exMovedLens"
    by blast+
  show ?thesis using ev frame sh m src by simp
qed

subsection \<open>Resizing a circle\<close>


lemma down_resize:
  "handlePointerDown noCanvasMetrics 2 \<lparr>pt_x = 150, pt_y = 200\<rparr>
     (exHome\<lparr>lenses := [exLens]\<rparr>, exStage) = (exHome\<lparr>lenses := [exLens]\<rparr>, exResizeStage)"
  by (simp add: eval_defs ex_defs)

lemma down_sticker_resize:
  "handlePointerDown noCanvasMetrics 2 \<lparr>pt_x = 50, pt_y = 25\<rparr> (exStickerHome, exStage) =
     (exStickerHome, exStickerResizeStage)"
  by (simp add: eval_defs ex_defs)




section \<open>Sticker mode without a sticker bitmap\<close>

text \<open>
  C4. The page has the 900 by 600 image loaded, the mode is \<open>sticker\<close> and no sticker
  bitmap is loaded. A primary-button press at (100, 100) on the empty canvas followed by
  the release does not pass the test \<open>mode === "sticker" && stickerImage\<close> and falls
  through to the creation of a lens: a lens of mode \<open>sticker\<close>, 320 by 320, is added to
  the store and a snapshot is pushed.
\<close>

theorem sticker_mode_without_bitmap_adds_lens:
  "stickerImage (exHome\<lparr>mode := StickerMode\<rparr>) = None \<and>
   handlePointerUp noCanvasMetrics ''lens-2'' 0
     (handlePointerDown noCanvasMetrics 0 \<lparr>pt_x = 100, pt_y = 100\<rparr>
        (exHome\<lparr>mode := StickerMode\<rparr>, exStage)) =
   (exHome\<lparr>mode := StickerMode,
      lenses := [\<lparr>lens_id = ''lens-2'', lens_x = 0, lens_y = 0, lens_width = 320,
        lens_height = 320, lens_sourceX = 160, lens_sourceY = 160, lens_sourceImageX = 160,
        lens_sourceImageY = 160, lens_mode = StickerMode, lens_shape = Circle, lens_blur = 12,
        lens_magnification = 2, lens_createdAt = 0\<rparr>],
      history := [\<lparr>snap_lenses = [], snap_stickers = [], snap_texts = []\<rparr>]\<rparr>, exStage)"
  by (simp add: eval_defs ex_defs)

section \<open>Creating entities on pointer up\<close>


lemma clamp_id: "lo \<le> v \<Longrightarrow> v \<le> hi \<Longrightarrow> clamp v lo hi = v"
  by (simp add: clamp_def)

lemma stickerRatio_pos: "0 < stickerRatio img"
  by (simp add: stickerRatio_def)

lemma create_ratio:
  assumes "40 \<le> fst (stickerCreateDims lsize img ds e)"
    "40 \<le> snd (stickerCreateDims lsize img ds e)"
  shows "fst (stickerCreateDims lsize img ds e) / snd (stickerCreateDims lsize img ds e)
           = stickerRatio img"
  using assms stickerRatio_pos [of img]
  by (auto simp: stickerCreateDims_def Let_def split: if_splits)

lemma resize_ratio:
  assumes "40 \<le> fst (stickerResizeRaw rs img p)" "40 \<le> snd (stickerResizeRaw rs img p)"
  shows "fst (stickerResizeRaw rs img p) / snd (stickerResizeRaw rs img p) = stickerRatio img"
  using assms stickerRatio_pos [of img]
  by (auto simp: stickerResizeRaw_def Let_def split: if_splits)

lemma up_create:
  assumes "drawingRegion s" "dragStart s = Some ds"
  shows "handlePointerUp mw newId now (h, s) =
     (let s1 = s\<lparr>textDragOffsetRef := None\<rparr>;
          e = (case dragCurrent s of None \<Rightarrow> ds | Some c \<Rightarrow> c);
          isClick = (\<bar>pt_x e - pt_x ds\<bar> < 8 \<and> \<bar>pt_y e - pt_y ds\<bar> < 8)
      in if mode h = TextMode then upText mw newId ds e isClick (h, s1)
         else if mode h = StickerMode \<and> stickerImage h \<noteq> None then
           (case stickerImage h of None \<Rightarrow> (h, s1)
            | Some img \<Rightarrow> upSticker newId img ds e (h, s1))
         else (handleLensAdd (if mode h = Magnify
                              then magnifyLens newId now ds e isClick h s1
                              else regionLens newId now ds e isClick h s1) h,
               s1\<lparr>dragStart := None, dragCurrent := None\<rparr>))"
  using assms by (auto simp: handlePointerUp_def drawingRegion_def Let_def)

lemma lenses_handleLensAdd: "lenses (handleLensAdd l h) = lenses h @ [l]"
  by (simp add: handleLensAdd_def Let_def pushHistory_frame)

lemma stickers_handleStickerAdd: "stickers (handleStickerAdd st h) = stickers h @ [st]"
  by (simp add: handleStickerAdd_def Let_def pushHistory_frame)

subsection \<open>The aspect ratio of stickers\<close>

text \<open>
  Where no clamp binds, both sticker paths give the ratio they compute with: creation the
  ratio of the bitmap it stores in the sticker, resize the ratio of the sticker bitmap
  that is loaded at the time of the move.
\<close>

lemma sticker_aspect_unclamped:
  "(drawingRegion s \<and> mode h = StickerMode \<and> stickerImage h = Some img \<and>
    dragStart s = Some ds \<and>
    d = stickerCreateDims (lensSize h) img ds (case dragCurrent s of None \<Rightarrow> ds | Some c \<Rightarrow> c) \<and>
    40 \<le> fst d \<and> fst d \<le> size_width s \<and> 40 \<le> snd d \<and> snd d \<le> size_height s \<longrightarrow>
    (\<exists>st. stickers (fst (handlePointerUp mw newId now (h, s))) = stickers h @ [st] \<and>
          sticker_image st = img \<and> sticker_width st = fst d \<and> sticker_height st = snd d \<and>
          sticker_width st / sticker_height st = stickerRatio img)) \<and>
   (activeGesture h s = StickerResize \<and> stickerResizeState s = Some rs \<and>
    stickerImage h = Some img \<and> raw = stickerResizeRaw rs img p \<and>
    40 \<le> fst raw \<and> fst raw \<le> size_width s - rect_x (rs_start rs) \<and>
    40 \<le> snd raw \<and> snd raw \<le> size_height s - rect_y (rs_start rs) \<longrightarrow>
    stickers (fst (handlePointerMove mw p (h, s))) =
      map (\<lambda>st. if sticker_id st = rs_id rs
                 then st\<lparr>sticker_width := fst raw, sticker_height := snd raw\<rparr> else st)
        (stickers h) \<and>
    fst raw / snd raw = stickerRatio img)"
proof (intro conjI impI)
  assume a: "drawingRegion s \<and> mode h = StickerMode \<and> stickerImage h = Some img \<and>
    dragStart s = Some ds \<and>
    d = stickerCreateDims (lensSize h) img ds (case dragCurrent s of None \<Rightarrow> ds | Some c \<Rightarrow> c) \<and>
    40 \<le> fst d \<and> fst d \<le> size_width s \<and> 40 \<le> snd d \<and> snd d \<le> size_height s"
  let ?e = "case dragCurrent s of None \<Rightarrow> ds | Some c \<Rightarrow> c"
  have up: "handlePointerUp mw newId now (h, s) =
      upSticker newId img ds ?e (h, s\<lparr>textDragOffsetRef := None\<rparr>)"
    using a by (simp add: up_create [of s ds] Let_def)
  from a have deq: "d = stickerCreateDims (lensSize h) img ds ?e"
    and lo: "40 \<le> fst d" "40 \<le> snd d" by blast+
  have r: "fst d / snd d = stickerRatio img"
    using lo unfolding deq by (rule create_ratio)
  have cw: "clamp (fst d) 40 (size_width s) = fst d"
    and ch: "clamp (snd d) 40 (size_height s) = snd d"
    using a by (blast intro: clamp_id)+
  have d: "stickerCreateDims (lensSize h) img ds ?e = d" using deq by simp
  show "\<exists>st. stickers (fst (handlePointerUp mw newId now (h, s))) = stickers h @ [st] \<and>
          sticker_image st = img \<and> sticker_width st = fst d \<and> sticker_height st = snd d \<and>
          sticker_width st / sticker_height st = stickerRatio img"
    unfolding up
    by (simp add: upSticker_def Let_def d cw ch r stickers_handleStickerAdd)
next
  assume a: "activeGesture h s = StickerResize \<and> stickerResizeState s = Some rs \<and>
    stickerImage h = Some img \<and> raw = stickerResizeRaw rs img p \<and>
    40 \<le> fst raw \<and> fst raw \<le> size_width s - rect_x (rs_start rs) \<and>
    40 \<le> snd raw \<and> snd raw \<le> size_height s - rect_y (rs_start rs)"
  have mv: "handlePointerMove mw p (h, s) =
      (moveStickerResize (size_width s) (size_height s) rs img p h, s)"
    using a by (simp add: move_StickerResize)
  from a have req: "raw = stickerResizeRaw rs img p"
    and lo: "40 \<le> fst raw" "40 \<le> snd raw"
    and hi: "fst raw \<le> size_width s - rect_x (rs_start rs)"
      "snd raw \<le> size_height s - rect_y (rs_start rs)" by blast+
  have dims: "stickerResizeDims (size_width s) (size_height s) rs img p = (fst raw, snd raw)"
    using lo hi unfolding req by (simp add: stickerResizeDims_def Let_def clamp_id)
  show "stickers (fst (handlePointerMove mw p (h, s))) =
      map (\<lambda>st. if sticker_id st = rs_id rs
                 then st\<lparr>sticker_width := fst raw, sticker_height := snd raw\<rparr> else st)
        (stickers h)"
    unfolding mv
    by (simp add: moveStickerResize_def Let_def dims stickers_onStickerUpdate mergeSticker_def)
  show "fst raw / snd raw = stickerRatio img"
    using lo unfolding req by (rule resize_ratio)
qed

text \<open>
  C2. Aspect preservation fails on the code in two ways. Creation: with the 400 by 200
  sticker bitmap (ratio 2) a drag from (100, 100) to (160, 160) gives 60 by 30 at the
  ratio, and the clamp to the 40-unit minimum raises the height alone: the sticker is 60 by
  40, ratio 1.5, where 80 by 40 would have met ratio, minimum and canvas. Resize: after
  another sticker file (200 by 600) has been picked and has loaded, a resize of the
  example sticker, which keeps and paints its own 400 by 200 bitmap, follows the ratio of
  the new bitmap: moved by 20 to the right from 100 by 50 it becomes 120 by 360, with no
  clamp involved.
\<close>

theorem sticker_aspect_not_preserved:
  "stickers (fst (handlePointerUp noCanvasMetrics ''sticker-2'' 0
      (exStickerHome\<lparr>stickers := []\<rparr>, exDrawStage \<lparr>pt_x = 160, pt_y = 160\<rparr>))) =
     [\<lparr>sticker_id = ''sticker-2'', sticker_x = 100, sticker_y = 100, sticker_width = 60,
       sticker_height = 40, sticker_image = exStickerImage, sticker_shape = Circle\<rparr>] \<and>
   stickerRatio exStickerImage = 2 \<and> (60 :: real) / 40 \<noteq> 2 \<and>
   (80 :: real) / 40 = 2 \<and>
   stickers (fst (handlePointerMove noCanvasMetrics \<lparr>pt_x = 70, pt_y = 25\<rparr>
      (handlePointerDown noCanvasMetrics 2 \<lparr>pt_x = 50, pt_y = 25\<rparr> (exSwappedHome, exStage))))
     = [exSticker\<lparr>sticker_width := 120, sticker_height := 360\<rparr>] \<and>
   sticker_image exSticker = exStickerImage \<and> (120 :: real) / 360 \<noteq> 2"
  by (simp add: eval_defs ex_defs exSwappedHome_def exTallImage_def handleStickerPicked_def
      stickerLoaded_def)

subsection \<open>A click in magnify mode\<close>


lemma toImagePoint_inverse:
  assumes m: "imageMetrics w h0 (Some img) = Some d"
    and pos: "0 < naturalWidth img" "0 < naturalHeight img" "0 < w" "0 < h0"
    and inx: "im_offsetX d \<le> pt_x p" "pt_x p \<le> im_offsetX d + im_drawWidth d"
    and iny: "im_offsetY d \<le> pt_y p" "pt_y p \<le> im_offsetY d + im_drawHeight d"
  shows "imageToCanvas img d (toImagePoint (Some d) (Some img) p) = p"
proof -
  have sc: "0 < im_scale d"
    using m pos by (auto simp: imageMetrics_def Let_def)
  have dw: "im_drawWidth d = real (naturalWidth img) * im_scale d"
    and dh: "im_drawHeight d = real (naturalHeight img) * im_scale d"
    using m by (auto simp: imageMetrics_def Let_def)
  have x0: "0 \<le> (pt_x p - im_offsetX d) / im_scale d"
    and y0: "0 \<le> (pt_y p - im_offsetY d) / im_scale d"
    using sc inx(1) iny(1) by simp_all
  have x1: "(pt_x p - im_offsetX d) / im_scale d \<le> real (naturalWidth img)"
    using sc inx(2) dw by (simp add: pos_divide_le_eq)
  have y1: "(pt_y p - im_offsetY d) / im_scale d \<le> real (naturalHeight img)"
    using sc iny(2) dh by (simp add: pos_divide_le_eq)
  have cx: "clamp ((pt_x p - im_offsetX d) / im_scale d) 0 (real (naturalWidth img)) =
      (pt_x p - im_offsetX d) / im_scale d"
    using x0 x1 by (rule clamp_id)
  have cy: "clamp ((pt_y p - im_offsetY d) / im_scale d) 0 (real (naturalHeight img)) =
      (pt_y p - im_offsetY d) / im_scale d"
    using y0 y1 by (rule clamp_id)
  show ?thesis
    using sc pos(1,2)
    by (simp add: toImagePoint_def imageToCanvas_def cx cy dw dh)
qed

lemma down_click:
  "handlePointerDown noCanvasMetrics 0 \<lparr>pt_x = 50, pt_y = 50\<rparr> (exMagnifyHome, exStage) =
     (exMagnifyHome, exClickStage)"
  by (simp add: eval_defs ex_defs)


text \<open>
  A primary-button press on an idle stage, at a point with no entity under it, starts a
  region; moves then follow the pointer.
\<close>

lemma down_on_empty:
  assumes "idle s" "emptyAt mw h p" "effectiveImage h \<noteq> None \<or> mode h = TextMode"
  shows "handlePointerDown mw 0 p (h, s) = (h, s\<lparr>dragStart := Some p, dragCurrent := Some p\<rparr>)"
  using assms by (auto simp: handlePointerDown_def idle_def emptyAt_def Let_def)

lemma move_while_drawing:
  assumes "idle s"
  shows "handlePointerMove mw e (h, s\<lparr>dragStart := Some p, dragCurrent := c\<rparr>) =
           (h, s\<lparr>dragStart := Some p, dragCurrent := Some e\<rparr>)"
proof -
  have "activeGesture h (s\<lparr>dragStart := Some p, dragCurrent := c\<rparr>) = Drawing"
    using assms by (simp add: gesture_conds idle_def)
  then show ?thesis by (simp add: move_Drawing)
qed

lemma drawing_after_down:
  assumes "idle s"
  shows "drawingRegion (s\<lparr>dragStart := Some p, dragCurrent := c\<rparr>)"
  using assms by (simp add: drawingRegion_def idle_def)

text \<open>
  C8. A click in magnify mode, Scenario B. The stage is idle, no entity lies under the
  point \<open>p\<close>, an image is drawn and the mode is \<open>magnify\<close>. A primary-button press at
  \<open>p\<close> followed by the release, with or without a move in between to a point less than 8
  away in both axes, adds one lens. With \<open>wh = min(lensSize, canvas width, canvas height)\<close>:
  its source point is \<open>p\<close> clamped to the canvas, it is \<open>wh\<close> by \<open>wh\<close>, its display centre
  is aimed at \<open>(p.x + 0.65 * wh, p.y - 0.25 * wh)\<close> clamped to the canvas, and its top-left
  corner is that centre minus \<open>wh / 2\<close> clamped into \<open>[0, canvas - wh]\<close>; \<open>sourceImageX\<close>
  and \<open>sourceImageY\<close> are \<open>p\<close> converted by \<open>toImagePoint\<close>, the image pixel that
  \<open>drawImage\<close> paints at \<open>p\<close> when \<open>p\<close> lies on the drawn image. For lens size 200 on a
  900 by 600 canvas and \<open>p = (50, 50)\<close>: source (50, 50), size 200 by 200, centre aimed at
  \<open>(50 + 200 * 0.65, 50 - 200 * 0.25)\<close>, top-left corner (80, 0).
\<close>

theorem magnify_click_scenario:
  assumes "idle s" "emptyAt mw h p" "effectiveImage h \<noteq> None" "mode h = Magnify"
    "\<bar>pt_x e - pt_x p\<bar> < 8" "\<bar>pt_y e - pt_y p\<bar> < 8"
    "w = size_width s" "h0 = size_height s" "wh = min (lensSize h) (min w h0)"
  shows "\<exists>l.
     lenses (fst (handlePointerUp mw newId now
        (handlePointerMove mw e (handlePointerDown mw 0 p (h, s))))) = lenses h @ [l] \<and>
     lenses (fst (handlePointerUp mw newId now (handlePointerDown mw 0 p (h, s)))) =
       lenses h @ [l] \<and>
     lens_id l = newId \<and> lens_mode l = Magnify \<and> lens_shape l = lensShape h \<and>
     lens_sourceX l = clamp (pt_x p) 0 w \<and> lens_sourceY l = clamp (pt_y p) 0 h0 \<and>
     lens_width l = wh \<and> lens_height l = wh \<and>
     lens_x l = clamp (clamp (pt_x p + wh * 0.65) 0 w - wh / 2) 0 (w - wh) \<and>
     lens_y l = clamp (clamp (pt_y p - wh * 0.25) 0 h0 - wh / 2) 0 (h0 - wh) \<and>
     \<lparr>pt_x = lens_sourceImageX l, pt_y = lens_sourceImageY l\<rparr> =
       toImagePoint (imageMetrics w h0 (effectiveImage h)) (effectiveImage h) p \<and>
     (\<forall>img d. effectiveImage h = Some img \<and> 0 < naturalWidth img \<and> 0 < naturalHeight img \<and>
        0 < w \<and> 0 < h0 \<and> imageMetrics w h0 (Some img) = Some d \<and>
        im_offsetX d \<le> pt_x p \<and> pt_x p \<le> im_offsetX d + im_drawWidth d \<and>
        im_offsetY d \<le> pt_y p \<and> pt_y p \<le> im_offsetY d + im_drawHeight d \<longrightarrow>
        imageToCanvas img d \<lparr>pt_x = lens_sourceImageX l, pt_y = lens_sourceImageY l\<rparr> = p) \<and>
     (lensSize h = 200 \<and> w = 900 \<and> h0 = 600 \<and> p = \<lparr>pt_x = 50, pt_y = 50\<rparr> \<longrightarrow>
        lens_sourceX l = 50 \<and> lens_sourceY l = 50 \<and>
        lens_width l = 200 \<and> lens_height l = 200 \<and>
        clamp (pt_x p + wh * 0.65) 0 w = 50 + 200 * 0.65 \<and>
        clamp (pt_y p - wh * 0.25) 0 h0 = 50 - 200 * 0.25 \<and>
        lens_x l = 80 \<and> lens_y l = 0)"
proof -
  let ?s0 = "s\<lparr>dragStart := Some p, dragCurrent := Some p\<rparr>"
  let ?s1 = "s\<lparr>dragStart := Some p, dragCurrent := Some e\<rparr>"
  let ?l = "magnifyLens newId now p e True h (?s1\<lparr>textDragOffsetRef := None\<rparr>)"
  have img: "effectiveImage h \<noteq> None \<or> mode h = TextMode" using assms(3) by simp
  have down: "handlePointerDown mw 0 p (h, s) = (h, ?s0)"
    using assms(1,2) img by (rule down_on_empty)
  have move: "handlePointerMove mw e (h, ?s0) = (h, ?s1)"
    using assms(1) by (rule move_while_drawing)
  have dr1: "drawingRegion ?s1" and dr0: "drawingRegion ?s0"
    using assms(1) by (rule drawing_after_down)+
  have ds1: "dragStart ?s1 = Some p" and ds0: "dragStart ?s0 = Some p" by simp_all
  have up1: "fst (handlePointerUp mw newId now (h, ?s1)) = handleLensAdd ?l h"
    using assms(4,5,6) by (simp add: up_create [OF dr1 ds1] Let_def)
  have same: "magnifyLens newId now p p True h (?s0\<lparr>textDragOffsetRef := None\<rparr>) = ?l"
    by (simp add: magnifyLens_def Let_def)
  have up0: "fst (handlePointerUp mw newId now (h, ?s0)) = handleLensAdd ?l h"
    using assms(4) by (simp add: up_create [OF dr0 ds0] Let_def same [symmetric])
  have ls1: "lenses (fst (handlePointerUp mw newId now
        (handlePointerMove mw e (handlePointerDown mw 0 p (h, s))))) = lenses h @ [?l]"
    unfolding down move up1 by (simp add: lenses_handleLensAdd)
  have ls0: "lenses (fst (handlePointerUp mw newId now (handlePointerDown mw 0 p (h, s)))) =
       lenses h @ [?l]"
    unfolding down up0 by (simp add: lenses_handleLensAdd)
  have sz: "size_width (?s1\<lparr>textDragOffsetRef := None\<rparr>) = w"
    "size_height (?s1\<lparr>textDragOffsetRef := None\<rparr>) = h0"
    using assms(7,8) by simp_all
  have fields: "lens_id ?l = newId" "lens_mode ?l = Magnify" "lens_shape ?l = lensShape h"
    "lens_sourceX ?l = clamp (pt_x p) 0 w" "lens_sourceY ?l = clamp (pt_y p) 0 h0"
    "lens_width ?l = wh" "lens_height ?l = wh"
    "lens_x ?l = clamp (clamp (pt_x p + wh * 0.65) 0 w - wh / 2) 0 (w - wh)"
    "lens_y ?l = clamp (clamp (pt_y p - wh * 0.25) 0 h0 - wh / 2) 0 (h0 - wh)"
    unfolding magnifyLens_def Let_def sz using assms(4,9) by simp_all
  have src: "\<lparr>pt_x = lens_sourceImageX ?l, pt_y = lens_sourceImageY ?l\<rparr> =
       toImagePoint (imageMetrics w h0 (effectiveImage h)) (effectiveImage h) p"
    unfolding magnifyLens_def Let_def sz by simp
  have inv: "imageToCanvas img d \<lparr>pt_x = lens_sourceImageX ?l, pt_y = lens_sourceImageY ?l\<rparr> = p"
    if "effectiveImage h = Some img \<and> 0 < naturalWidth img \<and> 0 < naturalHeight img \<and>
        0 < w \<and> 0 < h0 \<and> imageMetrics w h0 (Some img) = Some d \<and>
        im_offsetX d \<le> pt_x p \<and> pt_x p \<le> im_offsetX d + im_drawWidth d \<and>
        im_offsetY d \<le> pt_y p \<and> pt_y p \<le> im_offsetY d + im_drawHeight d" for img d
  proof -
    have "imageToCanvas img d (toImagePoint (Some d) (Some img) p) = p"
      using that by (intro toImagePoint_inverse [of w h0]) simp_all
    then show ?thesis using that src by simp
  qed
  have scen: "lens_sourceX ?l = 50 \<and> lens_sourceY ?l = 50 \<and>
        lens_width ?l = 200 \<and> lens_height ?l = 200 \<and>
        clamp (pt_x p + wh * 0.65) 0 w = 50 + 200 * 0.65 \<and>
        clamp (pt_y p - wh * 0.25) 0 h0 = 50 - 200 * 0.25 \<and>
        lens_x ?l = 80 \<and> lens_y ?l = 0"
    if "lensSize h = 200 \<and> w = 900 \<and> h0 = 600 \<and> p = \<lparr>pt_x = 50, pt_y = 50\<rparr>"
    unfolding fields using that assms(9) by (simp add: clamp_def)
  show ?thesis
    using ls0 ls1 fields src inv scen by blast
qed

theorem magnify_click_scenario_witness:
  "lenses (fst (handlePointerUp noCanvasMetrics ''lens-2'' 0
      (handlePointerMove noCanvasMetrics \<lparr>pt_x = 53, pt_y = 46\<rparr>
        (handlePointerDown noCanvasMetrics 0 \<lparr>pt_x = 50, pt_y = 50\<rparr>
          (exMagnifyHome, exStage))))) = [exMagnifyLens] \<and>
   lens_x exMagnifyLens = 80 \<and> lens_y exMagnifyLens = 0 \<and>
   lens_sourceX exMagnifyLens = 50 \<and> lens_sourceY exMagnifyLens = 50 \<and>
   lens_width exMagnifyLens = 200 \<and> lens_height exMagnifyLens = 200 \<and>
   map lens_x (lenses (fst (handlePointerUp noCanvasMetrics ''lens-3'' 0
      (handlePointerDown noCanvasMetrics 0 \<lparr>pt_x = 400, pt_y = 300\<rparr>
        (exMagnifyHome, exStage))))) = [430] \<and>
   map lens_y (lenses (fst (handlePointerUp noCanvasMetrics ''lens-3'' 0
      (handlePointerDown noCanvasMetrics 0 \<lparr>pt_x = 400, pt_y = 300\<rparr>
        (exMagnifyHome, exStage))))) = [150]"
proof -
  let ?p = "\<lparr>pt_x = 50, pt_y = 50\<rparr>" and ?e = "\<lparr>pt_x = 53, pt_y = 46\<rparr>"
  let ?q = "\<lparr>pt_x = 400, pt_y = 300\<rparr>"
  have st: "idle exStage" "effectiveImage exMagnifyHome \<noteq> None" "mode exMagnifyHome = Magnify"
    "900 = size_width exStage" "600 = size_height exStage"
    "200 = min (lensSize exMagnifyHome) (min 900 600)"
    by (simp_all add: idle_def truthy_def effectiveImage_def ex_defs)
  have em: "emptyAt noCanvasMetrics exMagnifyHome ?p" "emptyAt noCanvasMetrics exMagnifyHome ?q"
    by (simp_all add: emptyAt_def ex_defs)
  have ls: "lensSize exMagnifyHome = 200" by (simp add: ex_defs)
  have near: "\<bar>pt_x ?e - pt_x ?p\<bar> < 8" "\<bar>pt_y ?e - pt_y ?p\<bar> < 8"
    "\<bar>pt_x ?q - pt_x ?q\<bar> < 8" "\<bar>pt_y ?q - pt_y ?q\<bar> < 8"
    by simp_all
  have ev: "lenses (fst (handlePointerUp noCanvasMetrics ''lens-2'' 0
      (handlePointerMove noCanvasMetrics ?e
        (handlePointerDown noCanvasMetrics 0 ?p (exMagnifyHome, exStage))))) = [exMagnifyLens]"
    by (simp add: eval_defs ex_defs)
  obtain l where l: "lenses (fst (handlePointerUp noCanvasMetrics ''lens-2'' 0
        (handlePointerMove noCanvasMetrics ?e
          (handlePointerDown noCanvasMetrics 0 ?p (exMagnifyHome, exStage))))) =
        lenses exMagnifyHome @ [l]"
      "lens_x l = 80" "lens_y l = 0" "lens_sourceX l = 50" "lens_sourceY l = 50"
      "lens_width l = 200" "lens_height l = 200"
    using magnify_click_scenario [OF st(1) em(1) st(2,3) near(1,2) st(4,5,6),
        of "''lens-2''" 0] ls
    by (elim exE conjE) (erule impE, simp, blast)
  have "l = exMagnifyLens" using l(1) ev by (simp add: ex_defs)
  then have a: "lens_x exMagnifyLens = 80" "lens_y exMagnifyLens = 0"
    "lens_sourceX exMagnifyLens = 50" "lens_sourceY exMagnifyLens = 50"
    "lens_width exMagnifyLens = 200" "lens_height exMagnifyLens = 200"
    using l by simp_all
  obtain k where k: "lenses (fst (handlePointerUp noCanvasMetrics ''lens-3'' 0
        (handlePointerDown noCanvasMetrics 0 ?q (exMagnifyHome, exStage)))) =
        lenses exMagnifyHome @ [k]"
      "lens_x k = clamp (clamp (pt_x ?q + 200 * 0.65) 0 900 - 200 / 2) 0 (900 - 200)"
      "lens_y k = clamp (clamp (pt_y ?q - 200 * 0.25) 0 600 - 200 / 2) 0 (600 - 200)"
    using magnify_click_scenario [OF st(1) em(2) st(2,3) near(3,4) st(4,5,6),
        of "''lens-3''" 0]
    by (elim exE conjE) blast
  have b: "map lens_x (lenses (fst (handlePointerUp noCanvasMetrics ''lens-3'' 0
        (handlePointerDown noCanvasMetrics 0 ?q (exMagnifyHome, exStage))))) = [430]"
    "map lens_y (lenses (fst (handlePointerUp noCanvasMetrics ''lens-3'' 0
        (handlePointerDown noCanvasMetrics 0 ?q (exMagnifyHome, exStage))))) = [150]"
    using k by (simp_all add: clamp_def ex_defs)
  show ?thesis using ev a b by simp
qed

section \<open>Undo round trip\<close>






section \<open>Staying within the canvas\<close>


lemma clamp_le: "clamp v lo hi \<le> hi"
  by (simp add: clamp_def)

lemma clamp_ge: "lo \<le> hi \<Longrightarrow> lo \<le> clamp v lo hi"
  by (simp add: clamp_def)

lemma lensResizeDims_le:
  "fst (lensResizeDims w h0 rs ls p) \<le> w - rect_x (rs_start rs)"
  "snd (lensResizeDims w h0 rs ls p) \<le> h0 - rect_y (rs_start rs)"
  by (simp_all add: lensResizeDims_def Let_def clamp_def min_le_iff_disj)

lemma stickerResizeDims_le:
  "fst (stickerResizeDims w h0 rs img p) \<le> w - rect_x (rs_start rs)"
  "snd (stickerResizeDims w h0 rs img p) \<le> h0 - rect_y (rs_start rs)"
  by (simp_all add: stickerResizeDims_def Let_def clamp_le)

lemma others_moveLens:
  "stickers (moveLensResize w h0 rs p h) = stickers h"
  "texts (moveLensResize w h0 rs p h) = texts h"
  "stickers (moveLensDrag w h0 off i p h) = stickers h"
  "texts (moveLensDrag w h0 off i p h) = texts h"
  by (simp_all add: moveLensResize_def moveLensDrag_def Let_def update_others
        split: option.splits)

lemma others_moveSticker:
  "texts (moveStickerResize w h0 rs img p h) = texts h"
  "texts (moveStickerDrag w h0 off i p h) = texts h"
  by (simp_all add: moveStickerResize_def moveStickerDrag_def Let_def update_others
        split: option.splits)

lemma others_moveText:
  "stickers (moveTextDrag mw w h0 off i p h) = stickers h"
  "stickers (moveTextResize rs p h) = stickers h"
  by (simp_all add: moveTextResize_def moveTextDrag_def Let_def update_others
        split: option.splits)

lemma find_set: "find P xs = Some x \<Longrightarrow> x \<in> set xs"
  by (induction xs) (auto split: if_splits)

lemma inCanvas_moveLensResize:
  assumes "list_all (lensInCanvas w h0) (lenses h)"
    and "list_all (\<lambda>l. lens_id l \<noteq> rs_id rs \<or>
           (lens_x l = rect_x (rs_start rs) \<and> lens_y l = rect_y (rs_start rs))) (lenses h)"
  shows "list_all (lensInCanvas w h0) (lenses (moveLensResize w h0 rs p h))"
  using assms lensResizeDims_le [of w h0 rs "lenses h" p]
  unfolding moveLensResize_def Let_def lenses_onLensUpdate list_all_iff
  by (auto simp: lensInCanvas_def mergeLens_def)

lemma inCanvas_moveStickerResize:
  assumes "list_all (stickerInCanvas w h0) (stickers h)"
    and "list_all (\<lambda>st. sticker_id st \<noteq> rs_id rs \<or>
           (sticker_x st = rect_x (rs_start rs) \<and> sticker_y st = rect_y (rs_start rs)))
         (stickers h)"
  shows "list_all (stickerInCanvas w h0) (stickers (moveStickerResize w h0 rs img p h))"
  using assms stickerResizeDims_le [of w h0 rs img p]
  unfolding moveStickerResize_def Let_def stickers_onStickerUpdate list_all_iff
  by (auto simp: stickerInCanvas_def mergeSticker_def)

lemma inCanvas_moveLensDrag:
  assumes all: "list_all (lensInCanvas w h0) (lenses h)"
    and d: "distinct (map lens_id (lenses h))"
  shows "list_all (lensInCanvas w h0) (lenses (moveLensDrag w h0 off i p h))"
proof (cases "find (\<lambda>l. lens_id l = i) (lenses h)")
  case None
  then show ?thesis using all by (simp add: moveLensDrag_def)
next
  case (Some lens)
  have same: "l = lens" if "l \<in> set (lenses h)" "lens_id l = lens_id lens" for l
    using find_distinct [OF d Some that] .
  have "lens \<in> set (lenses h)" using Some by (rule find_set)
  then have fit: "lensInCanvas w h0 lens" using all by (simp add: list_all_iff)
  have bx: "0 \<le> w - lens_width lens" and hy: "0 \<le> h0 - lens_height lens"
    using fit by (simp_all add: lensInCanvas_def)
  have new: "lensInCanvas w h0
      (mergeLens lens
        [L_x (clamp (pt_x p - off_dx off) 0 (w - lens_width lens)),
         L_y (clamp (pt_y p - off_dy off) 0 (h0 - lens_height lens)),
         L_sourceX (lens_sourceX lens +
            (clamp (pt_x p - off_dx off) 0 (w - lens_width lens) - lens_x lens)),
         L_sourceY (lens_sourceY lens +
            (clamp (pt_y p - off_dy off) 0 (h0 - lens_height lens) - lens_y lens))])"
    using clamp_ge [OF bx, of "pt_x p - off_dx off"] clamp_ge [OF hy, of "pt_y p - off_dy off"]
      clamp_le [of "pt_x p - off_dx off" 0 "w - lens_width lens"]
      clamp_le [of "pt_y p - off_dy off" 0 "h0 - lens_height lens"]
    by (simp add: lensInCanvas_def mergeLens_def)
  show ?thesis
    using all new
    unfolding moveLensDrag_def Some option.case Let_def lenses_onLensUpdate list_all_iff
    by (auto dest: same)
qed

lemma inCanvas_moveStickerDrag:
  assumes all: "list_all (stickerInCanvas w h0) (stickers h)"
    and d: "distinct (map sticker_id (stickers h))"
  shows "list_all (stickerInCanvas w h0) (stickers (moveStickerDrag w h0 off i p h))"
proof (cases "find (\<lambda>st. sticker_id st = i) (stickers h)")
  case None
  then show ?thesis using all by (simp add: moveStickerDrag_def)
next
  case (Some sticker)
  have same: "st = sticker" if "st \<in> set (stickers h)" "sticker_id st = sticker_id sticker" for st
    using find_distinct [OF d Some that] .
  have "sticker \<in> set (stickers h)" using Some by (rule find_set)
  then have fit: "stickerInCanvas w h0 sticker" using all by (simp add: list_all_iff)
  have bx: "0 \<le> w - sticker_width sticker" and hy: "0 \<le> h0 - sticker_height sticker"
    using fit by (simp_all add: stickerInCanvas_def)
  have new: "stickerInCanvas w h0
      (mergeSticker sticker
        [S_x (clamp (pt_x p - off_dx off) 0 (w - sticker_width sticker)),
         S_y (clamp (pt_y p - off_dy off) 0 (h0 - sticker_height sticker))])"
    using clamp_ge [OF bx, of "pt_x p - off_dx off"] clamp_ge [OF hy, of "pt_y p - off_dy off"]
      clamp_le [of "pt_x p - off_dx off" 0 "w - sticker_width sticker"]
      clamp_le [of "pt_y p - off_dy off" 0 "h0 - sticker_height sticker"]
    by (simp add: stickerInCanvas_def mergeSticker_def)
  show ?thesis
    using all new
    unfolding moveStickerDrag_def Some option.case Let_def stickers_onStickerUpdate list_all_iff
    by (auto dest: same)
qed

lemma getTextBounds_moved:
  "getTextBounds mw (mergeText t [T_x a, T_y b]) = getTextBounds mw t"
  by (simp add: getTextBounds_def mergeText_def)

lemma inCanvas_moveTextDrag:
  assumes all: "list_all (textInCanvas mw w h0) (texts h)"
    and d: "distinct (map text_id (texts h))"
  shows "list_all (textInCanvas mw w h0) (texts (moveTextDrag mw w h0 off i p h))"
proof (cases "find (\<lambda>t. text_id t = i) (texts h)")
  case None
  then show ?thesis using all by (simp add: moveTextDrag_def)
next
  case (Some tx)
  let ?b = "getTextBounds mw tx"
  have same: "t = tx" if "t \<in> set (texts h)" "text_id t = text_id tx" for t
    using find_distinct [OF d Some that] .
  have "tx \<in> set (texts h)" using Some by (rule find_set)
  then have fit: "textInCanvas mw w h0 tx" using all by (simp add: list_all_iff)
  have bx: "0 \<le> w - tb_width ?b" and hy: "0 \<le> h0 - tb_height ?b"
    using fit by (simp_all add: textInCanvas_def)
  have new: "textInCanvas mw w h0
      (mergeText tx
        [T_x (clamp (pt_x p - off_dx off) 0 (w - tb_width ?b)),
         T_y (clamp (pt_y p - off_dy off) 0 (h0 - tb_height ?b))])"
    using clamp_ge [OF bx, of "pt_x p - off_dx off"] clamp_ge [OF hy, of "pt_y p - off_dy off"]
      clamp_le [of "pt_x p - off_dx off" 0 "w - tb_width ?b"]
      clamp_le [of "pt_y p - off_dy off" 0 "h0 - tb_height ?b"]
    unfolding textInCanvas_def getTextBounds_moved
    by (simp add: mergeText_def)
  show ?thesis
    using all new
    unfolding moveTextDrag_def Some option.case Let_def texts_onTextUpdate list_all_iff
    by (auto dest: same)
qed


subsection \<open>What pointer-down records\<close>


lemma anchor_lens:
  "distinct (map lens_id ls) \<Longrightarrow> l \<in> set ls \<Longrightarrow>
   list_all (\<lambda>l'. lens_id l' \<noteq> lens_id l \<or> (lens_x l' = lens_x l \<and> lens_y l' = lens_y l)) ls"
  by (auto simp: list_all_iff distinct_map dest: inj_onD)

lemma anchor_sticker:
  "distinct (map sticker_id sts) \<Longrightarrow> st \<in> set sts \<Longrightarrow>
   list_all (\<lambda>st'. sticker_id st' \<noteq> sticker_id st \<or>
              (sticker_x st' = sticker_x st \<and> sticker_y st' = sticker_y st)) sts"
  by (auto simp: list_all_iff distinct_map dest: inj_onD)

lemma find_rev_set: "find P (rev xs) = Some x \<Longrightarrow> x \<in> set xs"
  using find_set [of P "rev xs" x] by simp

lemma collections_handlePointerDown:
  "lenses (fst (handlePointerDown mw b p (h, s))) = lenses h"
  "stickers (fst (handlePointerDown mw b p (h, s))) = stickers h"
  "texts (fst (handlePointerDown mw b p (h, s))) = texts h"
  by (simp_all add: handlePointerDown_def Let_def handleTextSelect_def split: option.splits)

lemma resizeState_handlePointerDown:
  assumes "resizeState s = None"
  shows "resizeState (snd (handlePointerDown mw b p (h, s))) = None \<or>
    (\<exists>l \<in> set (lenses h). \<exists>r. resizeState (snd (handlePointerDown mw b p (h, s))) = Some r \<and>
       rs_id r = lens_id l \<and> rect_x (rs_start r) = lens_x l \<and> rect_y (rs_start r) = lens_y l)"
proof (cases "find (\<lambda>lens. isWithinLens (lensBox lens) p) (rev (lenses h))")
  case None
  then show ?thesis
    using assms by (simp add: handlePointerDown_def Let_def split: option.splits)
next
  case (Some l)
  then have "l \<in> set (lenses h)" by (rule find_rev_set)
  then show ?thesis
    using assms Some by (auto simp: handlePointerDown_def Let_def split: option.splits)
qed

lemma stickerResizeState_handlePointerDown:
  assumes "stickerResizeState s = None"
  shows "stickerResizeState (snd (handlePointerDown mw b p (h, s))) = None \<or>
    (\<exists>st \<in> set (stickers h). \<exists>r.
       stickerResizeState (snd (handlePointerDown mw b p (h, s))) = Some r \<and>
       rs_id r = sticker_id st \<and> rect_x (rs_start r) = sticker_x st \<and>
       rect_y (rs_start r) = sticker_y st)"
proof (cases "find (\<lambda>st. isWithinLens (stickerBox st) p) (rev (stickers h))")
  case None
  then show ?thesis
    using assms by (simp add: handlePointerDown_def Let_def split: option.splits)
next
  case (Some st)
  then have "st \<in> set (stickers h)" by (rule find_rev_set)
  then show ?thesis
    using assms Some by (auto simp: handlePointerDown_def Let_def split: option.splits)
qed

text \<open>
  Pointer-down from a stage without a resize in progress leaves the stage anchored: the
  start geometry it records is the position of the entity that was hit.
\<close>

lemma anchored_handlePointerDown:
  assumes dl: "distinct (map lens_id (lenses h))"
    and dst: "distinct (map sticker_id (stickers h))"
    and dt: "distinct (map text_id (texts h))"
    and idle: "resizeState s = None" "stickerResizeState s = None"
  shows "anchored (fst (handlePointerDown mw b p (h, s))) (snd (handlePointerDown mw b p (h, s)))"
proof -
  let ?r = "handlePointerDown mw b p (h, s)"
  have 1: "case resizeState (snd ?r) of None \<Rightarrow> True
      | Some rs \<Rightarrow> list_all (\<lambda>l. lens_id l \<noteq> rs_id rs \<or>
           (lens_x l = rect_x (rs_start rs) \<and> lens_y l = rect_y (rs_start rs))) (lenses h)"
    using resizeState_handlePointerDown [OF idle(1), of mw b p h] anchor_lens [OF dl]
    by (auto split: option.splits)
  have 2: "case stickerResizeState (snd ?r) of None \<Rightarrow> True
      | Some rs \<Rightarrow> list_all (\<lambda>st. sticker_id st \<noteq> rs_id rs \<or>
           (sticker_x st = rect_x (rs_start rs) \<and> sticker_y st = rect_y (rs_start rs)))
         (stickers h)"
    using stickerResizeState_handlePointerDown [OF idle(2), of mw b p h] anchor_sticker [OF dst]
    by (auto split: option.splits)
  show ?thesis
    unfolding anchored_def collections_handlePointerDown
    using dl dst dt 1 2 by simp
qed


text \<open>
  Every move except a text resize keeps the entities within the canvas when they were
  within it: drags clamp the position to the room the entity leaves, and the resizes of
  lenses and stickers clamp the size to the room right of and below the start position
  (\<open>lensResizeDims_le\<close>, \<open>stickerResizeDims_le\<close>).
\<close>

lemma inCanvas_handlePointerMove:
  assumes inv: "allInCanvas mw (size_width s) (size_height s) h"
    and anc: "anchored h s"
    and g: "activeGesture h s \<noteq> TextResize"
  shows "allInCanvas mw (size_width s) (size_height s) (fst (handlePointerMove mw p (h, s)))"
proof -
  let ?w = "size_width s" and ?h0 = "size_height s"
  have L: "list_all (lensInCanvas ?w ?h0) (lenses h)"
    and S: "list_all (stickerInCanvas ?w ?h0) (stickers h)"
    and T: "list_all (textInCanvas mw ?w ?h0) (texts h)"
    using inv by (simp_all add: allInCanvas_def)
  have dl: "distinct (map lens_id (lenses h))"
    and dst: "distinct (map sticker_id (stickers h))"
    and dt: "distinct (map text_id (texts h))"
    using anc by (simp_all add: anchored_def)
  show ?thesis
  proof (cases "activeGesture h s")
    case TextResize
    then show ?thesis using g by simp
  next
    case TextDrag
    then obtain i off where "activeTextId s = Some i" "textDragOffsetRef s = Some off"
      using gesture_state(2) by blast
    then show ?thesis
      using TextDrag L S inCanvas_moveTextDrag [OF T dt]
      by (simp add: move_TextDrag allInCanvas_def lenses_moveText others_moveText)
  next
    case StickerResize
    then obtain rs img where st: "stickerResizeState s = Some rs" "stickerImage h = Some img"
      using gesture_state(3) by blast
    have a: "list_all (\<lambda>st. sticker_id st \<noteq> rs_id rs \<or>
           (sticker_x st = rect_x (rs_start rs) \<and> sticker_y st = rect_y (rs_start rs)))
         (stickers h)"
      using anc st(1) by (simp add: anchored_def)
    show ?thesis
      using StickerResize st L T inCanvas_moveStickerResize [OF S a]
      by (simp add: move_StickerResize allInCanvas_def lenses_moveSticker others_moveSticker)
  next
    case StickerDrag
    then obtain i off where "activeStickerId s = Some i" "stickerDragOffsetRef s = Some off"
      using gesture_state(4) by blast
    then show ?thesis
      using StickerDrag L T inCanvas_moveStickerDrag [OF S dst]
      by (simp add: move_StickerDrag allInCanvas_def lenses_moveSticker others_moveSticker)
  next
    case LensResize
    then obtain rs where st: "resizeState s = Some rs" using gesture_state(5) by blast
    have a: "list_all (\<lambda>l. lens_id l \<noteq> rs_id rs \<or>
           (lens_x l = rect_x (rs_start rs) \<and> lens_y l = rect_y (rs_start rs))) (lenses h)"
      using anc st by (simp add: anchored_def)
    show ?thesis
      using LensResize st S T inCanvas_moveLensResize [OF L a]
      by (simp add: move_LensResize allInCanvas_def others_moveLens)
  next
    case LensDrag
    then obtain i off where "activeLensId s = Some i" "dragOffsetRef s = Some off"
      using gesture_state(6) by blast
    then show ?thesis
      using LensDrag S T inCanvas_moveLensDrag [OF L dl]
      by (simp add: move_LensDrag allInCanvas_def others_moveLens)
  next
    case Drawing
    then show ?thesis using inv by (simp add: move_Drawing)
  next
    case Idle
    then show ?thesis using inv by (simp add: move_Idle)
  qed
qed

text \<open>
  C7. The clamp invariant fails on the code for text resize, the one resize branch without
  a clamp to the canvas. The text \<open>Hi\<close> of size 25 sits at (0, 550) on the 900 by 600
  canvas, its box 30 by 30 within the canvas. A secondary-button press at (10, 560) and a
  move to (810, 590), a point of the canvas, set the font size to 50: the box is then 60
  high and ends at 610, below the canvas.
\<close>

theorem text_resize_leaves_canvas:
  "allInCanvas noCanvasMetrics 900 600 exTextHome \<and>
   texts (fst (handlePointerMove noCanvasMetrics \<lparr>pt_x = 810, pt_y = 590\<rparr>
      (handlePointerDown noCanvasMetrics 2 \<lparr>pt_x = 10, pt_y = 560\<rparr> (exTextHome, exStage)))) =
     [exText\<lparr>text_size := 50\<rparr>] \<and>
   text_y (exText\<lparr>text_size := 50\<rparr>) +
     tb_height (getTextBounds noCanvasMetrics (exText\<lparr>text_size := 50\<rparr>)) = 610 \<and>
   \<not> textInCanvas noCanvasMetrics 900 600 (exText\<lparr>text_size := 50\<rparr>)"
  by (simp add: eval_defs ex_defs allInCanvas_def textInCanvas_def handleTextSelect_def)

section \<open>The order of painting\<close>


lemma layer_drawLens: "x \<in> set (drawLens img l d) \<Longrightarrow> layer x = 5"
  by (auto simp: drawLens_def split: option.splits if_splits)

lemma sorted_const: "(\<And>x. x \<in> set xs \<Longrightarrow> f x = c) \<Longrightarrow> sorted (map f xs)"
  by (induction xs) auto

lemma renderScene_image:
  assumes "imageMetrics w h0 (Some i) = Some d"
  shows "renderScene True (Some i) ls sts ts pv w h0 bg sp =
     [ClearRect w h0, DrawBaseImage i d] @ map DrawSticker sts @ map DrawText ts @
     map (\<lambda>l. DrawConnector l d) (filter (\<lambda>l. lens_mode l = Magnify) ls) @
     concat (map (\<lambda>l. DrawLensContent l i d #
                     (if lens_mode l = Magnify then [DrawGlassOverlay l] else [])) ls) @
     (case pv of None \<Rightarrow> [] | Some p \<Rightarrow> [DrawPreview p])"
proof -
  have c: "concat (map (\<lambda>lens. [DrawConnector lens d]) xs) = map (\<lambda>l. DrawConnector l d) xs"
    for xs by (induction xs) simp_all
  show ?thesis
    using assms by (simp add: renderScene_def Let_def drawLens_def c)
qed

lemma renderScene_no_image:
  "renderScene True None ls sts ts pv w h0 bg sp =
     [ClearRect w h0, DrawPlaceholder bg sp] @ map DrawText ts @
     (case pv of None \<Rightarrow> [] | Some p \<Rightarrow> [DrawPreview p])"
  by (simp add: renderScene_def Let_def drawLens_def imageMetrics_def)

lemma imageMetrics_Some: "\<exists>d. imageMetrics w h0 (Some i) = Some d"
  by (simp add: imageMetrics_def Let_def)

lemma sorted_layers_image:
  "sorted (map layer
     ([ClearRect w h0, DrawBaseImage i d] @ map DrawSticker sts @ map DrawText ts @
      map (\<lambda>l. DrawConnector l d) (filter (\<lambda>l. lens_mode l = Magnify) ls) @
      concat (map (\<lambda>l. DrawLensContent l i d #
                     (if lens_mode l = Magnify then [DrawGlassOverlay l] else [])) ls) @
      (case pv of None \<Rightarrow> [] | Some p \<Rightarrow> [DrawPreview p])))"
proof -
  have lens: "sorted (map layer (concat (map (\<lambda>l. DrawLensContent l i d #
                     (if lens_mode l = Magnify then [DrawGlassOverlay l] else [])) ls)))"
    by (rule sorted_const [where c = 5]) auto
  have inl: "x \<in> set (concat (map (\<lambda>l. DrawLensContent l i d #
                     (if lens_mode l = Magnify then [DrawGlassOverlay l] else [])) ls))
      \<Longrightarrow> layer x = 5" for x
    by (auto split: if_splits)
  show ?thesis
    using lens inl
    by (auto simp: sorted_append comp_def sorted_map split: option.splits)
qed

text \<open>
  C9, as the claim states it, fails without an image: with no image drawn (for instance
  under a black background) and one magnify lens in the store, \<open>renderScene\<close> paints the
  background only, neither a connector nor the content of the lens.
\<close>

theorem render_without_image_counterexample:
  "renderScene True None [exLens] [] [] None 900 600 ''#000000'' False =
     [ClearRect 900 600, DrawPlaceholder ''#000000'' False] \<and>
   lens_mode exLens = Magnify"
  by (simp add: renderScene_no_image exLens_def)

text \<open>
  C9, amended. For every input the paint operations of \<open>renderScene\<close> come in the order of
  the layers: clearing, background or image, stickers, texts, connectors, lens content,
  preview. With an image they are exactly: the image, all stickers, all texts, a connector
  for every magnify-mode lens, the clipped content of every lens (with the glass overlay
  of a magnify lens right after its content), the preview if there is one. Without an
  image they are the background, all texts and the preview if there is one: stickers,
  connectors and lens content are painted only when an image is drawn. Without a canvas
  nothing is painted.
\<close>

theorem render_order:
  "sorted (map layer (renderScene ok img ls sts ts pv w h0 bg sp)) \<and>
   (ok \<longrightarrow>
     (case img of
        None \<Rightarrow>
          renderScene ok img ls sts ts pv w h0 bg sp =
            [ClearRect w h0, DrawPlaceholder bg sp] @ map DrawText ts @
            (case pv of None \<Rightarrow> [] | Some p \<Rightarrow> [DrawPreview p])
      | Some i \<Rightarrow>
          (\<exists>d. imageMetrics w h0 img = Some d \<and>
            renderScene ok img ls sts ts pv w h0 bg sp =
              [ClearRect w h0, DrawBaseImage i d] @ map DrawSticker sts @ map DrawText ts @
              map (\<lambda>l. DrawConnector l d) (filter (\<lambda>l. lens_mode l = Magnify) ls) @
              concat (map (\<lambda>l. DrawLensContent l i d #
                     (if lens_mode l = Magnify then [DrawGlassOverlay l] else [])) ls) @
              (case pv of None \<Rightarrow> [] | Some p \<Rightarrow> [DrawPreview p]))))"
proof (cases ok)
  case False
  then show ?thesis by (simp add: renderScene_def)
next
  case True
  show ?thesis
  proof (cases img)
    case None
    have "sorted (map layer ([ClearRect w h0, DrawPlaceholder bg sp] @ map DrawText ts @
            (case pv of None \<Rightarrow> [] | Some p \<Rightarrow> [DrawPreview p])))"
      by (auto simp: sorted_append comp_def sorted_map split: option.splits)
    then show ?thesis using True None by (simp add: renderScene_no_image)
  next
    case (Some i)
    obtain d where d: "imageMetrics w h0 (Some i) = Some d"
      using imageMetrics_Some by blast
    show ?thesis
      using True Some d sorted_layers_image [of w h0 i d sts ts ls pv]
      by (simp add: renderScene_image [OF d])
  qed
qed

theorem render_order_witness:
  "renderScene True (Some exImage) [exLens] [exSticker] [exText] (Some exPreview) 900 600
     ''#0a0a0a'' True =
     [ClearRect 900 600, DrawBaseImage exImage exMetrics, DrawSticker exSticker,
      DrawText exText, DrawConnector exLens exMetrics,
      DrawLensContent exLens exImage exMetrics, DrawGlassOverlay exLens,
      DrawPreview exPreview] \<and>
   sorted (map layer (renderScene True (Some exImage) [exLens] [exSticker] [exText]
     (Some exPreview) 900 600 ''#0a0a0a'' True))"
proof -
  let ?r = "renderScene True (Some exImage) [exLens] [exSticker] [exText] (Some exPreview)
     900 600 ''#0a0a0a'' True"
  have m: "imageMetrics 900 600 (Some exImage) = Some exMetrics"
    by (simp add: imageMetrics_def exImage_def exMetrics_def Let_def)
  have mag: "lens_mode exLens = Magnify" by (simp add: exLens_def)
  have s: "sorted (map layer ?r)"
    and e: "\<exists>d. imageMetrics 900 600 (Some exImage) = Some d \<and>
      ?r = [ClearRect 900 600, DrawBaseImage exImage d] @ map DrawSticker [exSticker] @
        map DrawText [exText] @
        map (\<lambda>l. DrawConnector l d) (filter (\<lambda>l. lens_mode l = Magnify) [exLens]) @
        concat (map (\<lambda>l. DrawLensContent l exImage d #
               (if lens_mode l = Magnify then [DrawGlassOverlay l] else [])) [exLens]) @
        (case Some exPreview of None \<Rightarrow> [] | Some p \<Rightarrow> [DrawPreview p])"
    using render_order [of True "Some exImage" "[exLens]" "[exSticker]" "[exText]"
        "Some exPreview" 900 600 "''#0a0a0a''" True]
    by simp_all
  from e obtain d where d: "imageMetrics 900 600 (Some exImage) = Some d"
    and r: "?r = [ClearRect 900 600, DrawBaseImage exImage d] @ map DrawSticker [exSticker] @
        map DrawText [exText] @
        map (\<lambda>l. DrawConnector l d) (filter (\<lambda>l. lens_mode l = Magnify) [exLens]) @
        concat (map (\<lambda>l. DrawLensContent l exImage d #
               (if lens_mode l = Magnify then [DrawGlassOverlay l] else [])) [exLens]) @
        (case Some exPreview of None \<Rightarrow> [] | Some p \<Rightarrow> [DrawPreview p])"
    by blast
  have "d = exMetrics" using d m by simp
  then show ?thesis using r s mag by simp
qed

end
